theory Spec2Isabelle
  imports Main "HOL-Library.Sublist"
begin

section \<open>Python strings\<close>

text \<open>
  The service is written in Python 3; its strings are sequences of code points. A
  \<^typ>\<open>char\<close> stands for a code point below 256, so \<^const>\<open>length\<close> is Python's
  \<^verbatim>\<open>len\<close> on such strings. The character classes below are Python's on that
  range: \<^verbatim>\<open>str.strip()\<close> and the regular expression class \<^verbatim>\<open>\s\<close> remove
  the characters for which \<^verbatim>\<open>str.isspace()\<close> holds, and \<^verbatim>\<open>\d\<close> is the ten
  decimal digits.
\<close>

definition py_isspace :: "char \<Rightarrow> bool" where
  "py_isspace c =
     (c \<in> set [CHR 0x09, CHR 0x0A, CHR 0x0B, CHR 0x0C, CHR 0x0D, CHR 0x1C, CHR 0x1D,
                CHR 0x1E, CHR 0x1F, CHR 0x20, CHR 0x85, CHR 0xA0])"

definition py_isdigit :: "char \<Rightarrow> bool" where
  "py_isdigit c = (c \<in> set ''0123456789'')"

definition py_strip :: "string \<Rightarrow> string" where
  "py_strip s = rev (dropWhile py_isspace (rev (dropWhile py_isspace s)))"

text \<open>
  \<^verbatim>\<open>s.split(sep)\<close>: the pieces between the occurrences of \<open>sep\<close>, found from the
  left and not overlapping. Python raises \<^verbatim>\<open>ValueError\<close> on an empty separator; the
  source only splits at literal, non-empty separators.
\<close>

function py_split :: "string \<Rightarrow> string \<Rightarrow> string list" where
  "py_split sep [] = [[]]"
| "py_split sep (c # cs) =
     (if sep \<noteq> [] \<and> prefix sep (c # cs)
      then [] # py_split sep (drop (length sep) (c # cs))
      else (case py_split sep cs of [] \<Rightarrow> [[c]] | w # ws \<Rightarrow> (c # w) # ws))"
  by pat_completeness auto
termination
  by (relation "measure (\<lambda>(sep, s). length s)") auto

text \<open>\<^verbatim>\<open>sep.join(xs)\<close>.\<close>

fun py_join :: "string \<Rightarrow> string list \<Rightarrow> string" where
  "py_join sep [] = []"
| "py_join sep [x] = x"
| "py_join sep (x # y # ys) = x @ sep @ py_join sep (y # ys)"

text \<open>\<^verbatim>\<open>sub in s\<close>, \<^verbatim>\<open>s.startswith(p)\<close> and \<^verbatim>\<open>s.endswith(p)\<close>.\<close>

fun py_contains :: "string \<Rightarrow> string \<Rightarrow> bool" where
  "py_contains sub [] = (sub = [])"
| "py_contains sub (c # cs) = (prefix sub (c # cs) \<or> py_contains sub cs)"

definition py_startswith :: "string \<Rightarrow> string \<Rightarrow> bool" where
  "py_startswith s p = prefix p s"

definition py_endswith :: "string \<Rightarrow> string \<Rightarrow> bool" where
  "py_endswith s p = suffix p s"

section \<open>The caption parser\<close>

text \<open>
  The three parsing rules are written inline in
  \<^verbatim>\<open>get_full_transcript_with_enhanced_yt_dlp\<close> (lines 453 to 473 of
  \<^verbatim>\<open>youtube_service_fixed.py\<close>) and again, twice, in
  \<^verbatim>\<open>get_transcript_from_invidious_with_enhanced_options\<close>. The regular
  expressions are all anchored at the start of the line by \<^verbatim>\<open>re.match\<close>:
  \<^item> \<^verbatim>\<open>^\d{2}:\d{2}\<close> is \<open>re_match_mmss\<close>,
  \<^item> \<^verbatim>\<open>^\d{2}:\d{2}:\d{2}\<close> is \<open>re_match_hhmmss\<close>,
  \<^item> \<^verbatim>\<open>^-->$\<close> is \<open>re_match_arrow\<close> (Python's \<^verbatim>\<open>$\<close> also matches before a
    final newline),
  \<^item> \<^verbatim>\<open>^\d+$\<close> is \<open>re_match_index\<close>.
\<close>

fun re_match_mmss :: "string \<Rightarrow> bool" where
  "re_match_mmss (a # b # c # d # e # _) =
     (py_isdigit a \<and> py_isdigit b \<and> c = CHR '':'' \<and> py_isdigit d \<and> py_isdigit e)"
| "re_match_mmss _ = False"

fun re_match_hhmmss :: "string \<Rightarrow> bool" where
  "re_match_hhmmss (a # b # c # d # e # f # g # h # _) =
     (py_isdigit a \<and> py_isdigit b \<and> c = CHR '':'' \<and> py_isdigit d \<and> py_isdigit e \<and>
      f = CHR '':'' \<and> py_isdigit g \<and> py_isdigit h)"
| "re_match_hhmmss _ = False"

definition re_match_arrow :: "string \<Rightarrow> bool" where
  "re_match_arrow s = (s = ''-->'' \<or> s = ''-->\<newline>'')"

definition re_match_index :: "string \<Rightarrow> bool" where
  "re_match_index s =
     (let b = (if s \<noteq> [] \<and> last s = CHR ''\<newline>'' then butlast s else s)
      in b \<noteq> [] \<and> list_all py_isdigit b)"

text \<open>The test that keeps a stripped line of a WebVTT file (line 459).\<close>

definition vtt_keep :: "string \<Rightarrow> bool" where
  "vtt_keep line =
     (line \<noteq> [] \<and> \<not> py_startswith line ''WEBVTT'' \<and> \<not> re_match_mmss line \<and>
      \<not> re_match_hhmmss line \<and> \<not> re_match_arrow line)"

text \<open>The test that keeps a stripped line of an SRT file (line 468).\<close>

definition srt_keep :: "string \<Rightarrow> bool" where
  "srt_keep line =
     (line \<noteq> [] \<and> \<not> re_match_index line \<and> \<not> re_match_mmss line \<and>
      \<not> re_match_arrow line)"

definition parse_vtt :: "string \<Rightarrow> string" where
  "parse_vtt content =
     py_join '' '' (filter vtt_keep (map py_strip (py_split ''\<newline>'' content)))"

definition parse_srt :: "string \<Rightarrow> string" where
  "parse_srt content =
     py_join '' '' (filter srt_keep (map py_strip (py_split ''\<newline>'' content)))"

text \<open>
  \<^verbatim>\<open>re.sub(r'\s+', ' ', content)\<close> (line 473): every maximal run of whitespace
  becomes one space.
\<close>

function collapse_ws :: "string \<Rightarrow> string" where
  "collapse_ws [] = []"
| "collapse_ws (c # cs) =
     (if py_isspace c then CHR '' '' # collapse_ws (dropWhile py_isspace cs)
      else c # collapse_ws cs)"
  by pat_completeness auto
termination
  by (relation "measure length") (auto simp: less_Suc_eq_le length_dropWhile_le)

definition parse_generic :: "string \<Rightarrow> string" where
  "parse_generic content = collapse_ws content"

text \<open>A string with no whitespace at either end: what \<^verbatim>\<open>strip\<close> leaves of a line that is not blank.\<close>

definition tight :: "string \<Rightarrow> bool" where
  "tight s = (s \<noteq> [] \<and> \<not> py_isspace (hd s) \<and> \<not> py_isspace (last s))"

section \<open>WebVTT inputs, line by line\<close>

text \<open>
  The kinds of line of a WebVTT file that the parser's test tells apart, by what is left of
  the line when the whitespace around it is taken away: the header (it starts with
  \<^verbatim>\<open>WEBVTT\<close>), a cue timing line (it starts with two digits, a colon and two
  digits, which covers \<^verbatim>\<open>MM:SS\<close> and \<^verbatim>\<open>HH:MM:SS\<close> with anything after them),
  a line that is only the cue arrow, a blank line, and a line of caption text. \<open>core\<close>
  is the line without the whitespace around it.
\<close>

datatype vtt_line =
  Header string | Timestamp char char char char string | Arrow | Blank | Text string

fun core :: "vtt_line \<Rightarrow> string" where
  "core (Header r) = ''WEBVTT'' @ r"
| "core (Timestamp a b c d r) = [a, b, CHR '':'', c, d] @ r"
| "core Arrow = ''-->''"
| "core Blank = []"
| "core (Text t) = t"

text \<open>
  A line of the file is a kind of line with the whitespace before and after it; \<open>render\<close>
  gives the line as it stands in the file, and \<open>texts\<close> the caption text lines of a
  file in their order, without the whitespace around them. A file is its lines joined by
  newlines, so a file that ends with a newline has a blank last line.
\<close>

type_synonym padded_line = "string \<times> vtt_line \<times> string"

fun render :: "padded_line \<Rightarrow> string" where
  "render (before, l, after) = before @ core l @ after"

fun texts :: "padded_line list \<Rightarrow> string list" where
  "texts [] = []"
| "texts ((before, Text t, after) # ls) = t # texts ls"
| "texts (l # ls) = texts ls"

text \<open>
  A caption text line that is told apart from the other kinds: not blank, no whitespace at
  either end, and not looking like the header, a timing line or the arrow.
\<close>

definition caption_text :: "string \<Rightarrow> bool" where
  "caption_text t = (tight t \<and> \<not> prefix ''WEBVTT'' t \<and> \<not> re_match_mmss t \<and> t \<noteq> ''-->'')"

definition padding :: "string \<Rightarrow> bool" where
  "padding s = list_all (\<lambda>c. py_isspace c \<and> c \<noteq> CHR ''\<newline>'') s"

fun well_formed_core :: "vtt_line \<Rightarrow> bool" where
  "well_formed_core (Header r) = (CHR ''\<newline>'' \<notin> set r)"
| "well_formed_core (Timestamp a b c d r) =
     (py_isdigit a \<and> py_isdigit b \<and> py_isdigit c \<and> py_isdigit d \<and> CHR ''\<newline>'' \<notin> set r)"
| "well_formed_core Arrow = True"
| "well_formed_core Blank = True"
| "well_formed_core (Text t) = (caption_text t \<and> CHR ''\<newline>'' \<notin> set t)"

fun well_formed :: "padded_line \<Rightarrow> bool" where
  "well_formed (before, l, after) = (padding before \<and> padding after \<and> well_formed_core l)"

text \<open>
  Every line without a newline is a well-formed line: \<open>line_of\<close> takes it apart into
  the whitespace before, the kind of what is between, and the whitespace after.
\<close>

fun timestamp_of :: "string \<Rightarrow> vtt_line" where
  "timestamp_of (a # b # c # d # e # r) = Timestamp a b d e r"
| "timestamp_of s = Text s"

definition kind_of :: "string \<Rightarrow> vtt_line" where
  "kind_of s =
     (if s = [] then Blank
      else if prefix ''WEBVTT'' s then Header (drop (length ''WEBVTT'') s)
      else if re_match_mmss s then timestamp_of s
      else if s = ''-->'' then Arrow
      else Text s)"

definition line_of :: "string \<Rightarrow> padded_line" where
  "line_of s =
     (takeWhile py_isspace s, kind_of (py_strip s),
      rev (takeWhile py_isspace (rev (dropWhile py_isspace s))))"

text \<open>A digit followed at once by a colon, anywhere in the string.\<close>

fun has_digit_colon :: "string \<Rightarrow> bool" where
  "has_digit_colon (a # b # r) = ((py_isdigit a \<and> b = CHR '':'') \<or> has_digit_colon (b # r))"
| "has_digit_colon _ = False"

text \<open>\<^verbatim>\<open>s.rstrip()\<close>.\<close>

definition py_rstrip :: "string \<Rightarrow> string" where
  "py_rstrip s = rev (dropWhile py_isspace (rev s))"

section \<open>Python values, exceptions and the file system\<close>

text \<open>
  The values that the backends put into their dictionaries: \<^verbatim>\<open>None\<close>, a string or an
  integer. A dictionary is an association list; \<open>dict_get d k v\<close> is
  \<^verbatim>\<open>d.get(k, v)\<close>, \<open>truthy\<close> is Python's truth test and \<open>py_str\<close> is what an
  f-string prints.
\<close>

datatype pyval = PNone | PStr string | PInt int

type_synonym pydict = "(string \<times> pyval) list"

definition truthy :: "pyval \<Rightarrow> bool" where
  "truthy v = (case v of PNone \<Rightarrow> False | PStr s \<Rightarrow> s \<noteq> [] | PInt i \<Rightarrow> i \<noteq> 0)"

definition dict_get :: "pydict \<Rightarrow> string \<Rightarrow> pyval \<Rightarrow> pyval" where
  "dict_get d k dflt = (case map_of d k of None \<Rightarrow> dflt | Some v \<Rightarrow> v)"

function str_of_nat :: "nat \<Rightarrow> string" where
  "str_of_nat n =
     (if n < 10 then [char_of (48 + n)]
      else str_of_nat (n div 10) @ [char_of (48 + n mod 10)])"
  by pat_completeness auto
termination
  by (relation "measure id") auto

definition py_str :: "pyval \<Rightarrow> string" where
  "py_str v =
     (case v of
        PNone \<Rightarrow> ''None''
      | PStr s \<Rightarrow> s
      | PInt i \<Rightarrow> (if i < 0 then CHR ''-'' # str_of_nat (nat (- i)) else str_of_nat (nat i)))"

text \<open>The exceptions that the model tells apart; \<open>BackendError\<close> is any other one.\<close>

datatype exn =
  AttributeError | TypeError | IndexError | FileNotFoundError | PermissionError
  | IsADirectoryError | ImportError | BackendError

text \<open>
  The file system is explicit state: what exists under each path. A \<open>File\<close> is a
  regular file with its text. A \<open>Locked\<close> file can be read but not removed (its
  directory does not allow it), and a \<open>Directory\<close> can be neither read as a file nor
  removed by \<^verbatim>\<open>os.remove\<close>. \<^verbatim>\<open>os.path.exists\<close> holds for all three and is
  false for the empty path.
\<close>

datatype node = File string | Locked string | Directory

type_synonym filesystem = "string \<rightharpoonup> node"

definition path_exists :: "filesystem \<Rightarrow> string \<Rightarrow> bool" where
  "path_exists fs p = (p \<noteq> [] \<and> fs p \<noteq> None)"

text \<open>
  \<^verbatim>\<open>os.remove(p)\<close>: it deletes a regular file and raises otherwise, for a path that
  does not exist and also for one that exists and cannot be removed.
\<close>

definition os_remove :: "filesystem \<Rightarrow> string \<Rightarrow> exn + filesystem" where
  "os_remove fs p =
     (if p = [] then Inl FileNotFoundError
      else case fs p of
        None \<Rightarrow> Inl FileNotFoundError
      | Some (File content) \<Rightarrow> Inr (fs(p := None))
      | Some (Locked content) \<Rightarrow> Inl PermissionError
      | Some Directory \<Rightarrow> Inl IsADirectoryError)"

text \<open>\<^verbatim>\<open>open(p, 'r').read()\<close>, the text as Python hands it to the program.\<close>

definition read_text :: "filesystem \<Rightarrow> string \<Rightarrow> exn + string" where
  "read_text fs p =
     (if p = [] then Inl FileNotFoundError
      else case fs p of
        None \<Rightarrow> Inl FileNotFoundError
      | Some (File content) \<Rightarrow> Inr content
      | Some (Locked content) \<Rightarrow> Inr content
      | Some Directory \<Rightarrow> Inl IsADirectoryError)"

section \<open>The external backends\<close>

text \<open>
  What yt-dlp's \<^verbatim>\<open>extract_info\<close> returns: the scalar entries of the info dictionary
  and, when the key \<^verbatim>\<open>subtitles\<close> is there, the dictionary from language to track
  list, each track list given by the text that an f-string prints for it.
\<close>

record ydl_info =
  info_fields :: pydict
  info_subtitles :: "(string \<times> string) list option"

definition info_truthy :: "ydl_info \<Rightarrow> bool" where
  "info_truthy i = (info_fields i \<noteq> [] \<or> info_subtitles i \<noteq> None)"

text \<open>The three option sets with which the service calls \<^verbatim>\<open>extract_info\<close>.\<close>

datatype ydl_opts = MetadataOpts | FlatOpts | SubtitleOpts

text \<open>
  The mirror's JSON: an entry of a caption list with its optional keys, and the
  video-details object with its optional keys.
\<close>

record caption_item =
  ci_label :: "string option"
  ci_languageCode :: "string option"
  ci_url :: "string option"

record video_details =
  vd_title :: "pyval option"
  vd_description :: "pyval option"
  vd_captions :: "caption_item list option"

text \<open>
  An HTTP request raises, or returns a status code together with what reading the body
  gives (for the two JSON endpoints \<^verbatim>\<open>response.json()\<close> may raise as well).
\<close>

type_synonym 'a response = "exn + nat \<times> 'a"

text \<open>
  Everything outside the service is a field of \<open>backend\<close>; a theorem about the service
  holds for every value of it. A call that can touch the file system takes it and
  returns it.
  \<^item> \<open>extract_info\<close>: yt-dlp under the given options; it raises, returns
    \<^verbatim>\<open>None\<close> or returns an info dictionary.
  \<^item> \<open>get_transcript_with_youtube_transcript_api\<close> and
    \<open>get_transcript_from_proxy_service\<close>: the two transcript-API strategies (lines 93
    to 216). Each one wraps all of its library calls in a handler for
    \<^verbatim>\<open>Exception\<close>, so a call returns a text or \<^verbatim>\<open>None\<close>.
  \<^item> \<open>subtitle_path\<close>: the randomly named path for subtitle files.
  \<^item> \<open>download_audio_from_youtube\<close> (lines 218 to 271): a path or \<^verbatim>\<open>None\<close>.
  \<^item> \<open>whisper\<close>: importing the local model and transcribing; \<open>Inl ImportError\<close> when
    the package is missing, \<open>Inr None\<close> when the result is empty or has no
    \<^verbatim>\<open>text\<close>, \<open>Inr (Some v)\<close> when \<^verbatim>\<open>result["text"]\<close> is \<open>v\<close>.
  \<^item> \<open>openai_import\<close>, \<open>openai_api_key\<close>, \<open>openai_transcribe\<close>: the remote
    fallback; the last covers making the client, opening the file and the API call.
  \<^item> \<open>invidious_instances\<close> and \<open>user_agents\<close>: the two lists in the order in which
    \<^verbatim>\<open>random.shuffle\<close> left them (the user agents are shuffled again for each
    instance).
  \<^item> \<open>captions_api\<close>, \<open>video_api\<close>, \<open>caption_fetch\<close>: the mirror's endpoints, by
    instance, user agent and video id, and the download of a caption URL, by the step
    that asks, the URL, the user agent and the number of the attempt.
\<close>

record backend =
  extract_info :: "ydl_opts \<Rightarrow> string \<Rightarrow> filesystem \<Rightarrow> (exn + ydl_info option) \<times> filesystem"
  get_transcript_with_youtube_transcript_api :: "pyval \<Rightarrow> string option"
  get_transcript_from_proxy_service :: "pyval \<Rightarrow> string option"
  subtitle_path :: string
  download_audio_from_youtube :: "string \<Rightarrow> filesystem \<Rightarrow> string option \<times> filesystem"
  whisper :: "string \<Rightarrow> filesystem \<Rightarrow> (exn + pyval option) \<times> filesystem"
  openai_import :: bool
  openai_api_key :: "string option"
  openai_transcribe :: "string \<Rightarrow> filesystem \<Rightarrow> (exn + pyval option) \<times> filesystem"
  invidious_instances :: "string list"
  user_agents :: "string \<Rightarrow> string list"
  captions_api :: "string \<Rightarrow> string \<Rightarrow> pyval \<Rightarrow> (exn + caption_item list option) response"
  video_api :: "string \<Rightarrow> string \<Rightarrow> pyval \<Rightarrow> (exn + video_details) response"
  caption_fetch :: "nat \<Rightarrow> string \<Rightarrow> string \<Rightarrow> nat \<Rightarrow> string response"

section \<open>Speech to text, with its cleanup\<close>

text \<open>
  \<^verbatim>\<open>transcribe_audio\<close> (lines 273 to 342). \<open>transcribe_steps\<close> is the body of the
  outer \<^verbatim>\<open>try\<close>: the local model first and, only when importing it fails, the
  remote API. A text that is not a string makes \<^verbatim>\<open>len\<close> raise inside the
  \<^verbatim>\<open>try\<close>, which the handlers turn into \<^verbatim>\<open>None\<close>.
\<close>

definition transcribe_remote :: "backend \<Rightarrow> string \<Rightarrow> filesystem \<Rightarrow> string option \<times> filesystem" where
  "transcribe_remote w audio_path fs =
     (if \<not> openai_import w then (None, fs)
      else case openai_api_key w of
        None \<Rightarrow> (None, fs)
      | Some key \<Rightarrow>
          if key = [] then (None, fs)
          else case openai_transcribe w audio_path fs of
            (Inr (Some (PStr t)), fs1) \<Rightarrow> (Some t, fs1)
          | (_, fs1) \<Rightarrow> (None, fs1))"

definition transcribe_steps :: "backend \<Rightarrow> string \<Rightarrow> filesystem \<Rightarrow> string option \<times> filesystem" where
  "transcribe_steps w audio_path fs =
     (case whisper w audio_path fs of
        (Inr (Some (PStr t)), fs1) \<Rightarrow> (Some t, fs1)
      | (Inr _, fs1) \<Rightarrow> (None, fs1)
      | (Inl ImportError, fs1) \<Rightarrow> transcribe_remote w audio_path fs1
      | (Inl _, fs1) \<Rightarrow> (None, fs1))"

text \<open>
  The \<^verbatim>\<open>finally\<close> block (lines 335 to 342). When \<^verbatim>\<open>os.remove\<close> raises, the
  handler of lines 341 and 342 logs a warning and the file stays.
\<close>

definition cleanup_audio :: "filesystem \<Rightarrow> string \<Rightarrow> filesystem" where
  "cleanup_audio fs audio_path =
     (if audio_path \<noteq> [] \<and> path_exists fs audio_path
      then (case os_remove fs audio_path of Inr fs' \<Rightarrow> fs' | Inl e \<Rightarrow> fs)
      else fs)"

definition transcribe_audio :: "backend \<Rightarrow> string \<Rightarrow> filesystem \<Rightarrow> string option \<times> filesystem" where
  "transcribe_audio w audio_path fs =
     (case transcribe_steps w audio_path fs of (r, fs1) \<Rightarrow> (r, cleanup_audio fs1 audio_path))"

section \<open>Resolving the video id\<close>

text \<open>
  \<^verbatim>\<open>extract_video_id\<close> of \<^verbatim>\<open>youtube_service_fixed.py\<close> (lines 738 to 787).
  \<open>piece\<close> is \<^verbatim>\<open>s.split(sep)[i]\<close>, which raises \<^verbatim>\<open>IndexError\<close> when there
  are not enough pieces, and \<open>then_piece\<close> chains it.
\<close>

definition piece :: "nat \<Rightarrow> string \<Rightarrow> string \<Rightarrow> exn + string" where
  "piece i sep s =
     (let ps = py_split sep s in if i < length ps then Inr (ps ! i) else Inl IndexError)"

definition then_piece :: "exn + string \<Rightarrow> nat \<Rightarrow> string \<Rightarrow> exn + string" where
  "then_piece r i sep = (case r of Inl e \<Rightarrow> Inl e | Inr s \<Rightarrow> piece i sep s)"

text \<open>
  The chain of URL patterns (lines 750 to 766): \<open>None\<close> when no branch returns, which
  is also the case of a watch URL without \<^verbatim>\<open>v=\<close>.
\<close>

definition id_from_patterns :: "string \<Rightarrow> (exn + string) option" where
  "id_from_patterns youtube_url =
     (if py_contains ''youtu.be/'' youtube_url
      then Some (then_piece (then_piece (piece 1 ''youtu.be/'' youtube_url) 0 ''?'') 0 ''&'')
      else if py_contains ''youtube.com/watch'' youtube_url
      then (if py_contains ''v='' youtube_url
            then Some (then_piece (piece 1 ''v='' youtube_url) 0 ''&'')
            else None)
      else if py_contains ''youtube.com/embed/'' youtube_url
      then Some (then_piece (then_piece (piece 1 ''embed/'' youtube_url) 0 ''?'') 0 ''&'')
      else if py_contains ''youtube.com/v/'' youtube_url
      then Some (then_piece (then_piece (piece 1 ''v/'' youtube_url) 0 ''?'') 0 ''&'')
      else None)"

text \<open>
  The whole function: a pattern branch returns its id; an exception there is caught by the
  outer handler, which returns \<^verbatim>\<open>None\<close>; otherwise yt-dlp is asked (lines 769 to
  781) and its \<^verbatim>\<open>id\<close> entry, if any, is returned.
\<close>

definition extract_video_id :: "backend \<Rightarrow> string \<Rightarrow> filesystem \<Rightarrow> pyval \<times> filesystem" where
  "extract_video_id w youtube_url fs =
     (case id_from_patterns youtube_url of
        Some (Inr video_id) \<Rightarrow> (PStr video_id, fs)
      | Some (Inl e) \<Rightarrow> (PNone, fs)
      | None \<Rightarrow>
          (case extract_info w FlatOpts youtube_url fs of
             (Inr (Some info), fs1) \<Rightarrow>
               (if info_truthy info
                then (case map_of (info_fields info) ''id'' of
                        Some v \<Rightarrow> (v, fs1) | None \<Rightarrow> (PNone, fs1))
                else (PNone, fs1))
           | (_, fs1) \<Rightarrow> (PNone, fs1)))"

text \<open>The characters of a YouTube video id: letters, digits, hyphen and underscore.\<close>

definition video_id_char :: "char \<Rightarrow> bool" where
  "video_id_char c =
     (py_isdigit c \<or> c \<in> set ''abcdefghijklmnopqrstuvwxyzABCDEFGHIJKLMNOPQRSTUVWXYZ-_'')"

section \<open>Metadata\<close>

text \<open>The dictionary built from an info dictionary (lines 412 to 421 and 820 to 829).\<close>

definition metadata_of_info :: "ydl_info \<Rightarrow> string \<Rightarrow> pydict" where
  "metadata_of_info info video_url =
     [(''title'', dict_get (info_fields info) ''title'' (PStr ''Unknown'')),
      (''author'', dict_get (info_fields info) ''uploader'' (PStr ''Unknown'')),
      (''length_seconds'', dict_get (info_fields info) ''duration'' (PInt 0)),
      (''views'', dict_get (info_fields info) ''view_count'' (PInt 0)),
      (''publish_date'', dict_get (info_fields info) ''upload_date'' PNone),
      (''video_id'', dict_get (info_fields info) ''id'' PNone),
      (''thumbnail_url'', dict_get (info_fields info) ''thumbnail'' PNone),
      (''source_url'', PStr video_url)]"

text \<open>The stub of lines 505 to 508 and 897.\<close>

definition unable_text :: "pydict \<Rightarrow> string" where
  "unable_text metadata =
     ''Title: '' @ py_str (dict_get metadata ''title'' (PStr ''Unknown'')) @
     ''\<newline>Author: '' @ py_str (dict_get metadata ''author'' (PStr ''Unknown'')) @
     ''\<newline>\<newline>Unable to extract content from this YouTube video.''"

text \<open>The composite of title and description (lines 502 and 717).\<close>

definition title_description :: "pyval \<Rightarrow> pyval \<Rightarrow> string" where
  "title_description title description =
     ''Title: '' @ py_str title @ ''\<newline>\<newline>Description: '' @ py_str description"

section \<open>The subtitle and download strategy\<close>

text \<open>
  \<^verbatim>\<open>get_full_transcript_with_enhanced_yt_dlp\<close> (lines 344 to 512), step by step. An
  exception anywhere is caught by the handler of line 510, which returns
  \<^verbatim>\<open>None\<close>.
\<close>

definition subtitle_exts :: "string list" where
  "subtitle_exts = [''vtt'', ''srt'', ''ttml'', ''srv1'', ''srv2'', ''srv3'']"

definition subtitle_langs :: "string list" where
  "subtitle_langs = [''en'', ''en-US'', ''en-GB'', ''en-CA'', ''en-AU'']"

text \<open>Step 1, lines 436 to 441: the subtitle files that exist, extension by extension.\<close>

definition potential_subtitle_files :: "filesystem \<Rightarrow> string \<Rightarrow> string list" where
  "potential_subtitle_files fs path =
     filter (path_exists fs)
       (concat (map (\<lambda>ext. map (\<lambda>lang. path @ ''.'' @ lang @ ''.'' @ ext) subtitle_langs)
                    subtitle_exts))"

text \<open>Lines 453 to 473: the parsing rule is chosen by the file's extension.\<close>

definition parse_subtitle_file :: "string \<Rightarrow> string \<Rightarrow> string" where
  "parse_subtitle_file subtitle_file content =
     (if py_endswith subtitle_file ''.vtt'' then parse_vtt content
      else if py_endswith subtitle_file ''.srt'' then parse_srt content
      else parse_generic content)"

text \<open>Step 2, lines 477 to 481: the first preferred language among the info's subtitles.\<close>

fun subtitles_for :: "(string \<times> string) list \<Rightarrow> string list \<Rightarrow> string option" where
  "subtitles_for subs [] = None"
| "subtitles_for subs (lang # langs) =
     (case map_of subs lang of
        Some tracks \<Rightarrow> Some (''Transcript from subtitles: '' @ tracks)
      | None \<Rightarrow> subtitles_for subs langs)"

definition transcript_from_info :: "ydl_info option \<Rightarrow> string option" where
  "transcript_from_info info =
     (case info of
        None \<Rightarrow> None
      | Some i \<Rightarrow>
          (case info_subtitles i of
             None \<Rightarrow> None
           | Some subs \<Rightarrow> subtitles_for subs subtitle_langs))"

text \<open>
  Step 3, lines 485 to 493: download the audio and transcribe it; the transcript counts
  when it has more than 100 characters.
\<close>

definition audio_transcript :: "backend \<Rightarrow> string \<Rightarrow> filesystem \<Rightarrow> string option \<times> filesystem" where
  "audio_transcript w video_url fs =
     (case download_audio_from_youtube w video_url fs of
        (None, fs1) \<Rightarrow> (None, fs1)
      | (Some audio_path, fs1) \<Rightarrow>
          if audio_path \<noteq> [] \<and> path_exists fs1 audio_path
          then (case transcribe_audio w audio_path fs1 of
                  (Some t, fs2) \<Rightarrow> if t \<noteq> [] \<and> 100 < length t then (Some t, fs2) else (None, fs2)
                | (None, fs2) \<Rightarrow> (None, fs2))
          else (None, fs1))"

text \<open>
  Step 4 and the stub after it, lines 495 to 508. \<^verbatim>\<open>len\<close> of a description that is
  not a string raises, so the function returns \<^verbatim>\<open>None\<close>.
\<close>

definition description_fallback :: "ydl_info option \<Rightarrow> pydict \<Rightarrow> string option" where
  "description_fallback info metadata =
     (let title = (case info of Some i \<Rightarrow> dict_get (info_fields i) ''title'' (PStr [])
                   | None \<Rightarrow> dict_get metadata ''title'' (PStr []));
          description = (case info of Some i \<Rightarrow> dict_get (info_fields i) ''description'' (PStr [])
                         | None \<Rightarrow> PStr [])
      in if truthy title \<and> truthy description
         then (case description of
                 PStr d \<Rightarrow> if 100 < length d then Some (title_description title description)
                           else Some (unable_text metadata)
               | _ \<Rightarrow> None)
         else Some (unable_text metadata))"

text \<open>
  The info dictionary as the function holds it: \<^verbatim>\<open>None\<close> when yt-dlp raised, and an
  empty dictionary counts as \<^verbatim>\<open>None\<close> in every test the function makes.
\<close>

definition usable_info :: "exn + ydl_info option \<Rightarrow> ydl_info option" where
  "usable_info r =
     (case r of Inr (Some i) \<Rightarrow> if info_truthy i then Some i else None | _ \<Rightarrow> None)"

definition default_metadata :: "string \<Rightarrow> pydict" where
  "default_metadata video_url =
     [(''title'', PStr ''Unknown''), (''author'', PStr ''Unknown''), (''source_url'', PStr video_url)]"

definition get_full_transcript_with_enhanced_yt_dlp ::
    "backend \<Rightarrow> string \<Rightarrow> filesystem \<Rightarrow> string option \<times> filesystem" where
  "get_full_transcript_with_enhanced_yt_dlp w video_url fs =
     (case extract_info w SubtitleOpts video_url fs of (r, fs1) \<Rightarrow>
        let info = usable_info r;
            metadata = (case info of Some i \<Rightarrow> metadata_of_info i video_url
                        | None \<Rightarrow> default_metadata video_url);
            (video_id, fs2) =
               (if truthy (dict_get metadata ''video_id'' PNone)
                then (dict_get metadata ''video_id'' PNone, fs1)
                else extract_video_id w video_url fs1)
        in if \<not> truthy video_id then (None, fs2)
           else case potential_subtitle_files fs2 (subtitle_path w) of
             subtitle_file # _ \<Rightarrow>
               (case read_text fs2 subtitle_file of
                  Inr content \<Rightarrow> (Some (parse_subtitle_file subtitle_file content), fs2)
                | Inl e \<Rightarrow> (None, fs2))
           | [] \<Rightarrow>
               (case transcript_from_info info of
                  Some t \<Rightarrow> (Some t, fs2)
                | None \<Rightarrow>
                    (case audio_transcript w video_url fs2 of
                       (Some t, fs3) \<Rightarrow> (Some t, fs3)
                     | (None, fs3) \<Rightarrow> (description_fallback info metadata, fs3))))"

section \<open>The mirror strategy\<close>

text \<open>
  \<^verbatim>\<open>get_transcript_from_invidious_with_enhanced_options\<close> (lines 514 to 736).
  \<open>first_some\<close> is a \<^verbatim>\<open>for\<close> loop whose body may return from the function.
\<close>

fun first_some :: "('a \<Rightarrow> 'b option) \<Rightarrow> 'a list \<Rightarrow> 'b option" where
  "first_some f [] = None"
| "first_some f (x # xs) = (case f x of Some y \<Rightarrow> Some y | None \<Rightarrow> first_some f xs)"

text \<open>
  Lines 586 to 620 (and 666 to 700): the rule is chosen by the caption URL, and the text
  is returned only when it has more than 100 characters.
\<close>

definition parse_caption :: "string \<Rightarrow> string \<Rightarrow> string option" where
  "parse_caption caption_url caption_content =
     (let text =
        (if py_endswith caption_url ''.vtt'' \<or> py_contains ''format=vtt'' caption_url
         then parse_vtt caption_content
         else if py_endswith caption_url ''.srt'' \<or> py_contains ''format=srt'' caption_url
         then parse_srt caption_content
         else parse_generic caption_content)
      in if 100 < length text then Some text else None)"

text \<open>
  The retry loop (lines 578 to 629): a status other than 200 or an exception goes on to
  the next attempt; a status of 200 ends the loop, with the text or without.
\<close>

fun fetch_caption :: "backend \<Rightarrow> nat \<Rightarrow> string \<Rightarrow> string \<Rightarrow> nat list \<Rightarrow> string option" where
  "fetch_caption w step caption_url user_agent [] = None"
| "fetch_caption w step caption_url user_agent (attempt # attempts) =
     (case caption_fetch w step caption_url user_agent attempt of
        Inl e \<Rightarrow> fetch_caption w step caption_url user_agent attempts
      | Inr (status, content) \<Rightarrow>
          if status = 200 then parse_caption caption_url content
          else fetch_caption w step caption_url user_agent attempts)"

definition absolute_url :: "string \<Rightarrow> string \<Rightarrow> string" where
  "absolute_url instance caption_url =
     (if py_startswith caption_url ''/'' then instance @ caption_url else caption_url)"

definition language_of :: "caption_item \<Rightarrow> string" where
  "language_of c = (case ci_languageCode c of Some l \<Rightarrow> l | None \<Rightarrow> [])"

text \<open>Step 1, lines 556 to 629, on the list that the captions endpoint returned.\<close>

definition captions_step1 :: "backend \<Rightarrow> string \<Rightarrow> string \<Rightarrow> caption_item list \<Rightarrow> string option" where
  "captions_step1 w instance user_agent data =
     (let english_captions =
            filter (\<lambda>c. ci_label c \<noteq> None \<and> py_startswith (language_of c) ''en'') data;
          captions_to_try = (if english_captions \<noteq> [] then english_captions else data)
      in first_some
           (\<lambda>c. case ci_url c of
                   None \<Rightarrow> None
                 | Some u \<Rightarrow> fetch_caption w 1 (absolute_url instance u) user_agent [0, 1, 2])
           captions_to_try)"

text \<open>Step 2, lines 643 to 709, on the captions inside the video details.\<close>

definition captions_step2 :: "backend \<Rightarrow> string \<Rightarrow> string \<Rightarrow> caption_item list \<Rightarrow> string option" where
  "captions_step2 w instance user_agent captions =
     (let english_captions = filter (\<lambda>c. py_startswith (language_of c) ''en'') captions;
          captions_to_try = (if english_captions \<noteq> [] then english_captions else captions)
      in first_some
           (\<lambda>c. case ci_url c of
                   None \<Rightarrow> None
                 | Some u \<Rightarrow>
                     if u = [] then None
                     else fetch_caption w 2 (absolute_url instance u) user_agent [0, 1, 2])
           captions_to_try)"

text \<open>
  Step 3, lines 711 to 717: the description as a last resort. \<^verbatim>\<open>len\<close> of a
  description that is not a string raises; the handler of line 719 catches it and the
  attempt yields nothing.
\<close>

definition invidious_description_fallback :: "video_details \<Rightarrow> string option" where
  "invidious_description_fallback data =
     (case vd_description data of
        Some (PStr d) \<Rightarrow>
          if d \<noteq> [] \<and> 200 < length d
          then Some (title_description
                       (case vd_title data of Some t \<Rightarrow> t | None \<Rightarrow> PStr ''Unknown'') (PStr d))
          else None
      | _ \<Rightarrow> None)"

text \<open>Lines 634 to 720: the video-details request with steps 2 and 3.\<close>

definition video_details_step :: "backend \<Rightarrow> string \<Rightarrow> string \<Rightarrow> pyval \<Rightarrow> string option" where
  "video_details_step w instance user_agent video_id =
     (case video_api w instance user_agent video_id of
        Inr (status, Inr data) \<Rightarrow>
          if status = 200
          then (case (case vd_captions data of
                        Some captions \<Rightarrow>
                          if captions \<noteq> [] then captions_step2 w instance user_agent captions
                          else None
                      | None \<Rightarrow> None) of
                  Some t \<Rightarrow> Some t
                | None \<Rightarrow> invidious_description_fallback data)
          else None
      | _ \<Rightarrow> None)"

text \<open>
  One pass of the inner loop (lines 535 to 723). When the captions request itself raises,
  the handler of line 722 ends the pass, and the video details are not asked for.
\<close>

definition invidious_attempt :: "backend \<Rightarrow> pyval \<Rightarrow> string \<Rightarrow> string \<Rightarrow> string option" where
  "invidious_attempt w video_id instance user_agent =
     (case captions_api w instance user_agent video_id of
        Inl e \<Rightarrow> None
      | Inr (status, body) \<Rightarrow>
          (case (if status = 200
                 then (case body of
                         Inr (Some data) \<Rightarrow>
                           if data \<noteq> [] then captions_step1 w instance user_agent data else None
                       | _ \<Rightarrow> None)
                 else None) of
             Some t \<Rightarrow> Some t
           | None \<Rightarrow> video_details_step w instance user_agent video_id))"

definition get_transcript_from_invidious_with_enhanced_options ::
    "backend \<Rightarrow> pyval \<Rightarrow> string option" where
  "get_transcript_from_invidious_with_enhanced_options w video_id =
     first_some
       (\<lambda>instance. first_some (invidious_attempt w video_id instance) (user_agents w instance))
       (invidious_instances w)"

section \<open>The orchestrator\<close>

text \<open>
  \<^verbatim>\<open>process_youtube_url\<close> of \<^verbatim>\<open>youtube_service_fixed.py\<close> (lines 789 to 898).
  The model returns, with the pair that the Python returns, the list of the acquisition
  strategies it invoked, in order, and the file system it leaves.
\<close>

datatype strategy = TranscriptApi | ProxyService | EnhancedYtDlp | Invidious

record run =
  result_text :: "string option"
  result_metadata :: "pydict option"
  strategies_called :: "strategy list"
  result_fs :: filesystem

text \<open>
  Lines 800 to 836. \<^verbatim>\<open>metadata\<close> starts as \<^verbatim>\<open>None\<close>; it is set from the info
  dictionary when yt-dlp returns one that is not empty, and to the two-entry default when
  yt-dlp raises.
\<close>

definition fetch_metadata :: "backend \<Rightarrow> string \<Rightarrow> filesystem \<Rightarrow> pydict option \<times> filesystem" where
  "fetch_metadata w video_url fs =
     (case extract_info w MetadataOpts video_url fs of
        (Inl e, fs1) \<Rightarrow> (Some [(''title'', PStr ''Unknown''), (''source_url'', PStr video_url)], fs1)
      | (Inr None, fs1) \<Rightarrow> (None, fs1)
      | (Inr (Some info), fs1) \<Rightarrow>
          (if info_truthy info then Some (metadata_of_info info video_url) else None, fs1))"

text \<open>
  The two tests on a strategy's result: \<^verbatim>\<open>t and len(t) > 500\<close> accepts it as final
  (lines 853, 861, 869, 877), and \<^verbatim>\<open>t\<close> alone keeps it as partial content (lines 882
  to 893).
\<close>

definition accepted :: "string option \<Rightarrow> bool" where
  "accepted t = (case t of Some s \<Rightarrow> s \<noteq> [] \<and> 500 < length s | None \<Rightarrow> False)"

definition nonempty :: "string option \<Rightarrow> bool" where
  "nonempty t = (case t of Some s \<Rightarrow> s \<noteq> [] | None \<Rightarrow> False)"

text \<open>Lines 881 to 898: the partial content, in the order of the methods, or the stub.\<close>

definition partial_content ::
    "string option \<Rightarrow> string option \<Rightarrow> string option \<Rightarrow> string option \<Rightarrow> pydict \<Rightarrow> string option" where
  "partial_content transcript_from_api proxy_transcript full_transcript
       enhanced_invidious_transcript metadata =
     (if nonempty transcript_from_api then transcript_from_api
      else if nonempty proxy_transcript then proxy_transcript
      else if nonempty full_transcript then full_transcript
      else if nonempty enhanced_invidious_transcript then enhanced_invidious_transcript
      else Some (unable_text metadata))"

text \<open>Lines 849 to 898: the four methods in their fixed order.\<close>

definition run_strategies :: "backend \<Rightarrow> pyval \<Rightarrow> string \<Rightarrow> pydict \<Rightarrow> filesystem \<Rightarrow> run" where
  "run_strategies w video_id video_url metadata fs =
     (let transcript_from_api = get_transcript_with_youtube_transcript_api w video_id
      in if accepted transcript_from_api
         then \<lparr>result_text = transcript_from_api, result_metadata = Some metadata,
               strategies_called = [TranscriptApi], result_fs = fs\<rparr>
         else
           let proxy_transcript = get_transcript_from_proxy_service w video_id
           in if accepted proxy_transcript
              then \<lparr>result_text = proxy_transcript, result_metadata = Some metadata,
                    strategies_called = [TranscriptApi, ProxyService], result_fs = fs\<rparr>
              else
                case get_full_transcript_with_enhanced_yt_dlp w video_url fs of
                  (full_transcript, fs1) \<Rightarrow>
                    if accepted full_transcript
                    then \<lparr>result_text = full_transcript, result_metadata = Some metadata,
                          strategies_called = [TranscriptApi, ProxyService, EnhancedYtDlp],
                          result_fs = fs1\<rparr>
                    else
                      let enhanced_invidious_transcript =
                            get_transcript_from_invidious_with_enhanced_options w video_id
                      in \<lparr>result_text =
                             (if accepted enhanced_invidious_transcript
                              then enhanced_invidious_transcript
                              else partial_content transcript_from_api proxy_transcript
                                     full_transcript enhanced_invidious_transcript metadata),
                           result_metadata = Some metadata,
                           strategies_called = [TranscriptApi, ProxyService, EnhancedYtDlp, Invidious],
                           result_fs = fs1\<rparr>)"

text \<open>
  Lines 838 to 844: the video id comes from the metadata or, when it has none, from the
  URL.
\<close>

definition resolve_video_id ::
    "backend \<Rightarrow> pydict \<Rightarrow> string \<Rightarrow> filesystem \<Rightarrow> pyval \<times> filesystem" where
  "resolve_video_id w metadata video_url fs =
     (if truthy (dict_get metadata ''video_id'' PNone)
      then (dict_get metadata ''video_id'' PNone, fs)
      else extract_video_id w video_url fs)"

text \<open>
  The whole function. \<^verbatim>\<open>metadata.get\<close> on line 839 raises
  \<^verbatim>\<open>AttributeError\<close> when \<^verbatim>\<open>metadata\<close> is still \<^verbatim>\<open>None\<close>; nothing
  catches it, so it reaches the caller: the result \<open>Inl AttributeError\<close>.
\<close>

definition process_youtube_url :: "backend \<Rightarrow> string \<Rightarrow> filesystem \<Rightarrow> exn + run" where
  "process_youtube_url w video_url fs =
     (case fetch_metadata w video_url fs of
        (None, fs1) \<Rightarrow> Inl AttributeError
      | (Some metadata, fs1) \<Rightarrow>
          (case resolve_video_id w metadata video_url fs1 of
             (video_id, fs2) \<Rightarrow>
               if \<not> truthy video_id
               then Inr \<lparr>result_text = None, result_metadata = Some metadata,
                         strategies_called = [], result_fs = fs2\<rparr>
               else Inr (run_strategies w video_id video_url metadata fs2)))"

section \<open>The pytube-based service\<close>

text \<open>
  \<^verbatim>\<open>youtube_service (copy).py\<close>, the older implementation. Its functions carry the
  suffix \<open>_pytube\<close> where the newer file has one of the same name. Its backends:
  \<^item> \<open>get_video_metadata\<close> (lines 186 to 234) always returns a dictionary;
  \<^item> \<open>pytube_video_id\<close>: \<^verbatim>\<open>YouTube(url).video_id\<close>, which may raise;
  \<^item> \<open>download_audio\<close> (lines 34 to 118): a path or \<^verbatim>\<open>None\<close>;
  \<^item> \<open>transcription_api\<close>: opening the file and calling the remote model; it raises
    or gives the \<^verbatim>\<open>text\<close> of the answer;
  \<^item> \<open>chat_completion\<close>: the summarising model; it raises or gives the content of
    the first choice, which may be \<^verbatim>\<open>None\<close>;
  \<^item> \<open>get_captions\<close> (lines 273 to 370) and \<open>get_youtube_transcript_api\<close> (lines
    372 to 445): a text or \<^verbatim>\<open>None\<close>, every exception being caught inside.
\<close>

record pytube_backend =
  get_video_metadata :: "string \<Rightarrow> pydict"
  pytube_video_id :: "string \<Rightarrow> exn + string"
  download_audio :: "string \<Rightarrow> filesystem \<Rightarrow> string option \<times> filesystem"
  transcription_api :: "string \<Rightarrow> filesystem \<Rightarrow> (exn + pyval) \<times> filesystem"
  chat_completion :: "string \<Rightarrow> exn + string option"
  get_captions :: "string \<Rightarrow> string option"
  get_youtube_transcript_api :: "string \<Rightarrow> string option"

subsection \<open>The video id, by regular expressions\<close>

text \<open>
  Lines 246 to 271. \<open>re_search f s\<close> is \<^verbatim>\<open>re.search\<close>: the match at the leftmost
  position that has one, \<open>f\<close> being the match at the start of a string. The class
  \<^verbatim>\<open>[^&\?\/]\<close> is \<open>id_char\<close> and \<^verbatim>\<open>\w\<close> is \<open>py_isword\<close>.
\<close>

definition id_char :: "char \<Rightarrow> bool" where
  "id_char c = (c \<noteq> CHR ''&'' \<and> c \<noteq> CHR ''?'' \<and> c \<noteq> CHR ''/'')"

definition py_isword :: "char \<Rightarrow> bool" where
  "py_isword c =
     (c = CHR ''_'' \<or> py_isdigit c \<or>
      c \<in> set ''abcdefghijklmnopqrstuvwxyzABCDEFGHIJKLMNOPQRSTUVWXYZ'' \<or>
      (let n = (of_char c :: nat)
       in n \<in> set [0xAA, 0xB2, 0xB3, 0xB5, 0xB9, 0xBA, 0xBC, 0xBD, 0xBE] \<or>
          (0xC0 \<le> n \<and> n \<noteq> 0xD7 \<and> n \<noteq> 0xF7)))"

fun re_search :: "(string \<Rightarrow> 'a option) \<Rightarrow> string \<Rightarrow> 'a option" where
  "re_search f [] = f []"
| "re_search f (c # cs) = (case f (c # cs) of Some g \<Rightarrow> Some g | None \<Rightarrow> re_search f cs)"

text \<open>A literal marker followed by the group \<^verbatim>\<open>([^&\?\/]+)\<close>, which is greedy.\<close>

definition group_after :: "string \<Rightarrow> string \<Rightarrow> string option" where
  "group_after marker s =
     (if prefix marker s
      then (let g = takeWhile id_char (drop (length marker) s)
            in if g \<noteq> [] then Some g else None)
      else None)"

text \<open>
  The fourth pattern,
  \<^verbatim>\<open>youtube\.com\/user\/\w+\/\w+\/[^&\?\/]+\<close>, has no group. A run of word
  characters ends before a slash, so the greedy match is the only one.
\<close>

definition user_pattern :: "string \<Rightarrow> unit option" where
  "user_pattern s =
     (if prefix ''youtube.com/user/'' s
      then (let r1 = drop (length ''youtube.com/user/'') s;
                r2 = dropWhile py_isword r1
            in if takeWhile py_isword r1 = [] then None
               else case r2 of
                 c2 # r3 \<Rightarrow>
                   if c2 = CHR ''/'' \<and> takeWhile py_isword r3 \<noteq> []
                   then (case dropWhile py_isword r3 of
                           c4 # c5 # r5 \<Rightarrow> if c4 = CHR ''/'' \<and> id_char c5 then Some () else None
                         | _ \<Rightarrow> None)
                   else None
               | [] \<Rightarrow> None)
      else None)"

text \<open>
  The patterns in their order. A match of the fourth one makes \<^verbatim>\<open>match.group(1)\<close>
  raise \<^verbatim>\<open>IndexError\<close>, which the outer handler turns into \<^verbatim>\<open>None\<close>.
\<close>

definition extract_video_id_pytube :: "pytube_backend \<Rightarrow> string \<Rightarrow> string option" where
  "extract_video_id_pytube w youtube_url =
     (case re_search (\<lambda>s. first_some (\<lambda>m. group_after m s) [''youtube.com/watch?v='', ''youtu.be/''])
             youtube_url of
        Some g \<Rightarrow> Some g
      | None \<Rightarrow>
     (case re_search (group_after ''youtube.com/embed/'') youtube_url of
        Some g \<Rightarrow> Some g
      | None \<Rightarrow>
     (case re_search (group_after ''youtube.com/v/'') youtube_url of
        Some g \<Rightarrow> Some g
      | None \<Rightarrow>
     (case re_search user_pattern youtube_url of
        Some u \<Rightarrow> None
      | None \<Rightarrow>
          (case pytube_video_id w youtube_url of Inr v \<Rightarrow> Some v | Inl e \<Rightarrow> None)))))"

subsection \<open>Transcribing and summarising\<close>

text \<open>Lines 120 to 147; a text that is not a string makes \<^verbatim>\<open>len\<close> raise.\<close>

definition transcribe_audio_pytube ::
    "pytube_backend \<Rightarrow> string \<Rightarrow> filesystem \<Rightarrow> string option \<times> filesystem" where
  "transcribe_audio_pytube w audio_file fs =
     (case transcription_api w audio_file fs of
        (Inr (PStr t), fs1) \<Rightarrow> (Some t, fs1)
      | (_, fs1) \<Rightarrow> (None, fs1))"

text \<open>\<^verbatim>\<open>s[:n]\<close> for an integer \<open>n\<close> of either sign.\<close>

definition py_slice_to :: "string \<Rightarrow> int \<Rightarrow> string" where
  "py_slice_to s n = (if 0 \<le> n then take (nat n) s else take (nat (int (length s) + n)) s)"

text \<open>
  \<^verbatim>\<open>summarize_transcript\<close> (lines 149 to 184). A content of \<^verbatim>\<open>None\<close> makes
  \<^verbatim>\<open>len(summary)\<close> raise inside the \<^verbatim>\<open>try\<close>, so the truncation is returned.
\<close>

definition summarize_transcript :: "pytube_backend \<Rightarrow> string \<Rightarrow> int \<Rightarrow> string" where
  "summarize_transcript w transcript max_length =
     (if int (length transcript) \<le> max_length then transcript
      else case chat_completion w transcript of
        Inr (Some summary) \<Rightarrow> summary
      | _ \<Rightarrow> py_slice_to transcript max_length @ ''... [truncated due to length]'')"

subsection \<open>The orchestrator\<close>

text \<open>
  What the orchestrator does with an acquisition result (lines 482 to 485, 497 to 500 and
  506 to 509): a result that is \<^verbatim>\<open>None\<close> or empty is not used, any other one is
  passed through \<^verbatim>\<open>summarize_transcript\<close> with the default \<^verbatim>\<open>max_length\<close>
  and returned.
\<close>

definition processed :: "pytube_backend \<Rightarrow> string option \<Rightarrow> string option" where
  "processed w t =
     (case t of
        Some s \<Rightarrow> if s \<noteq> [] then Some (summarize_transcript w s 5000) else None
      | None \<Rightarrow> None)"

text \<open>
  Method 1 of \<^verbatim>\<open>process_youtube_url\<close> (lines 469 to 491), with the file system it
  leaves: \<open>Inr (Some text)\<close> when the function returns here, \<open>Inr None\<close> when it goes
  on to method 2. When \<^verbatim>\<open>os.remove\<close> on line 480 raises, the transcript is not
  used and the handler removes the file if it exists; that second \<^verbatim>\<open>os.remove\<close>
  (line 491) stands in no \<^verbatim>\<open>try\<close>, so an exception it raises leaves the function:
  the outcome \<open>Inl\<close>.
\<close>

definition audio_method ::
    "pytube_backend \<Rightarrow> string \<Rightarrow> filesystem \<Rightarrow> (exn + string option) \<times> filesystem" where
  "audio_method w video_url fs =
     (case download_audio w video_url fs of
        (None, fs1) \<Rightarrow> (Inr None, fs1)
      | (Some audio_file, fs1) \<Rightarrow>
          if audio_file = [] then (Inr None, fs1)
          else case transcribe_audio_pytube w audio_file fs1 of
            (transcript, fs2) \<Rightarrow>
              (case os_remove fs2 audio_file of
                 Inr fs3 \<Rightarrow> (Inr (processed w transcript), fs3)
               | Inl e \<Rightarrow>
                   if path_exists fs2 audio_file
                   then (case os_remove fs2 audio_file of
                           Inr fs3 \<Rightarrow> (Inr None, fs3)
                         | Inl e' \<Rightarrow> (Inl e', fs2))
                   else (Inr None, fs2)))"

text \<open>Lines 447 to 513; \<open>Inl\<close> when an exception reaches the caller.\<close>

definition process_youtube_url_pytube ::
    "pytube_backend \<Rightarrow> string \<Rightarrow> filesystem \<Rightarrow>
       (exn + string option \<times> pydict) \<times> filesystem" where
  "process_youtube_url_pytube w video_url fs =
     (let metadata = get_video_metadata w video_url
      in case extract_video_id_pytube w video_url of
        None \<Rightarrow> (Inr (None, metadata), fs)
      | Some video_id \<Rightarrow>
          if video_id = [] then (Inr (None, metadata), fs)
          else case audio_method w video_url fs of
            (Inl e, fs1) \<Rightarrow> (Inl e, fs1)
          | (Inr (Some processed_text), fs1) \<Rightarrow> (Inr (Some processed_text, metadata), fs1)
          | (Inr None, fs1) \<Rightarrow>
              (case processed w (get_captions w video_id) of
                 Some processed_text \<Rightarrow> (Inr (Some processed_text, metadata), fs1)
               | None \<Rightarrow>
                   (case processed w (get_youtube_transcript_api w video_id) of
                      Some processed_text \<Rightarrow> (Inr (Some processed_text, metadata), fs1)
                    | None \<Rightarrow> (Inr (None, metadata), fs1))))"

section \<open>Concrete backends\<close>

text \<open>
  Backends at which the theorems below are evaluated. In \<open>caption_only_backend\<close>, of
  the older service, only the captions are available.
\<close>

definition caption_only_backend :: pytube_backend where
  "caption_only_backend =
     \<lparr>get_video_metadata = (\<lambda>u. [(''title'', PStr ''Unknown''), (''source_url'', PStr u)]),
      pytube_video_id = (\<lambda>u. Inl BackendError),
      download_audio = (\<lambda>u fs. (None, fs)),
      transcription_api = (\<lambda>p fs. (Inl BackendError, fs)),
      chat_completion = (\<lambda>t. Inl BackendError),
      get_captions = (\<lambda>v. Some ''never gonna give you up''),
      get_youtube_transcript_api = (\<lambda>v. None)\<rparr>"

text \<open>In \<open>audio_backend\<close> the audio download leaves a file, and the remote model transcribes it.\<close>

definition audio_backend :: pytube_backend where
  "audio_backend =
     caption_only_backend
       \<lparr>download_audio := (\<lambda>u fs. (Some ''/tmp/clip.mp3'', fs(''/tmp/clip.mp3'' \<mapsto> File ''mp3''))),
        transcription_api := (\<lambda>p fs. (Inr (PStr ''never gonna let you down''), fs))\<rparr>"

text \<open>
  In \<open>locked_audio_backend\<close> the download leaves a file that cannot be removed.
\<close>

definition locked_audio_backend :: pytube_backend where
  "locked_audio_backend =
     audio_backend
       \<lparr>download_audio := (\<lambda>u fs. (Some ''/tmp/clip.mp3'', fs(''/tmp/clip.mp3'' \<mapsto> Locked ''mp3'')))\<rparr>"

text \<open>
  Backends of the newer service. In \<open>silent_backend\<close> every call fails: yt-dlp raises,
  no strategy finds anything and no mirror is configured. The others change it in one
  respect each.
\<close>

definition silent_backend :: backend where
  "silent_backend =
     \<lparr>extract_info = (\<lambda>opts u fs. (Inl BackendError, fs)),
      get_transcript_with_youtube_transcript_api = (\<lambda>v. None),
      get_transcript_from_proxy_service = (\<lambda>v. None),
      subtitle_path = ''/tmp/subs-0a1b2c3d'',
      download_audio_from_youtube = (\<lambda>u fs. (None, fs)),
      whisper = (\<lambda>p fs. (Inl ImportError, fs)),
      openai_import = False,
      openai_api_key = None,
      openai_transcribe = (\<lambda>p fs. (Inl BackendError, fs)),
      invidious_instances = [],
      user_agents = (\<lambda>i. []),
      captions_api = (\<lambda>i u v. Inl BackendError),
      video_api = (\<lambda>i u v. Inl BackendError),
      caption_fetch = (\<lambda>s u a n. Inl BackendError)\<rparr>"

text \<open>yt-dlp returns \<^verbatim>\<open>None\<close> without raising.\<close>

definition no_info_backend :: backend where
  "no_info_backend = silent_backend\<lparr>extract_info := (\<lambda>opts u fs. (Inr None, fs))\<rparr>"

text \<open>The transcript API has a transcript of 600 characters.\<close>

definition long_transcript_backend :: backend where
  "long_transcript_backend =
     silent_backend\<lparr>get_transcript_with_youtube_transcript_api :=
                       (\<lambda>v. Some (replicate 600 (CHR ''a'')))\<rparr>"

text \<open>
  The transcript API has 50 characters, and one mirror serves a caption track of 400
  characters.
\<close>

definition partial_backend :: backend where
  "partial_backend =
     silent_backend
       \<lparr>get_transcript_with_youtube_transcript_api := (\<lambda>v. Some (replicate 50 (CHR ''a''))),
        invidious_instances := [''https://mirror.example''],
        user_agents := (\<lambda>i. [''Mozilla/5.0'']),
        captions_api :=
          (\<lambda>i u v. Inr (200, Inr (Some [\<lparr>ci_label = Some ''English'', ci_languageCode = Some ''en'',
                                          ci_url = Some ''/api/v1/captions/1''\<rparr>]))),
        caption_fetch := (\<lambda>s u a n. Inr (200, replicate 400 (CHR ''b'')))\<rparr>"

text \<open>
  Only the metadata call of yt-dlp succeeds; the URL has none of the known shapes, so the
  subtitle strategy cannot resolve the video id and returns \<^verbatim>\<open>None\<close>.
\<close>

definition metadata_only_backend :: backend where
  "metadata_only_backend =
     silent_backend
       \<lparr>extract_info :=
          (\<lambda>opts u fs.
             case opts of
               MetadataOpts \<Rightarrow>
                 (Inr (Some \<lparr>info_fields = [(''id'', PStr ''dQw4w9WgXcQ''),
                                             (''title'', PStr ''Big Buck Bunny''),
                                             (''uploader'', PStr ''Blender'')],
                              info_subtitles = None\<rparr>), fs)
             | _ \<Rightarrow> (Inl BackendError, fs))\<rparr>"

text \<open>
  A video without captions whose description has 150 characters: yt-dlp reports it under
  the subtitle options, and one mirror reports the same title and description with no
  caption tracks.
\<close>

definition described_backend :: backend where
  "described_backend =
     silent_backend
       \<lparr>extract_info :=
          (\<lambda>opts u fs.
             case opts of
               SubtitleOpts \<Rightarrow>
                 (Inr (Some \<lparr>info_fields = [(''id'', PStr ''dQw4w9WgXcQ''),
                                             (''title'', PStr ''Big Buck Bunny''),
                                             (''uploader'', PStr ''Blender''),
                                             (''description'', PStr (replicate 150 (CHR ''d'')))],
                              info_subtitles = None\<rparr>), fs)
             | _ \<Rightarrow> (Inl BackendError, fs)),
        invidious_instances := [''https://mirror.example''],
        user_agents := (\<lambda>i. [''Mozilla/5.0'']),
        captions_api := (\<lambda>i u v. Inr (200, Inr (Some []))),
        video_api :=
          (\<lambda>i u v. Inr (200, Inr \<lparr>vd_title = Some (PStr ''Big Buck Bunny''),
                                    vd_description = Some (PStr (replicate 150 (CHR ''d''))),
                                    vd_captions = None\<rparr>))\<rparr>"

section \<open>Facts about the string operations\<close>

lemma py_split_not_Nil: "py_split sep s \<noteq> []"
  by (induction sep s rule: py_split.induct) (auto split: list.splits)

lemma py_split_char_notin: "w \<in> set (py_split [c] s) \<Longrightarrow> c \<notin> set w"
  by (induction "[c]" s arbitrary: w rule: py_split.induct) (auto split: list.splits if_splits)

lemma py_split_char_id: "c \<notin> set s \<Longrightarrow> py_split [c] s = [s]"
  by (induction s) auto

lemma set_py_strip: "set (py_strip l) \<subseteq> set l"
  unfolding py_strip_def by (auto dest!: set_dropWhileD)

lemma py_strip_tight: "py_strip l \<noteq> [] \<Longrightarrow> tight (py_strip l)"
proof -
  let ?m = "dropWhile py_isspace (rev (dropWhile py_isspace l))"
  assume "py_strip l \<noteq> []"
  then have ne: "?m \<noteq> []" by (simp add: py_strip_def)
  then have "\<not> py_isspace (hd ?m)" by (rule hd_dropWhile)
  then have last: "\<not> py_isspace (last (rev ?m))" using ne by (simp add: last_rev)
  have "set ?m \<subseteq> set (dropWhile py_isspace l)" by (auto dest: set_dropWhileD)
  moreover have "hd (rev ?m) = hd (dropWhile py_isspace l)"
  proof -
    obtain ys where "rev (dropWhile py_isspace l) = ys @ ?m"
      by (metis takeWhile_dropWhile_id)
    then have "dropWhile py_isspace l = rev ?m @ rev ys" by (metis rev_append rev_rev_ident)
    with ne show ?thesis by (metis hd_append rev_is_Nil_conv)
  qed
  moreover have "dropWhile py_isspace l \<noteq> []"
    using ne by (cases "dropWhile py_isspace l") simp_all
  ultimately have "\<not> py_isspace (hd (rev ?m))" by (simp add: hd_dropWhile)
  with ne last show ?thesis by (simp add: py_strip_def tight_def)
qed

lemma dropWhile_hd_id: "xs \<noteq> [] \<Longrightarrow> \<not> P (hd xs) \<Longrightarrow> dropWhile P xs = xs"
  by (cases xs) auto

lemma tight_py_strip: "tight s \<Longrightarrow> py_strip s = s"
  unfolding py_strip_def tight_def
  by (simp add: dropWhile_hd_id hd_rev)

lemma set_py_join: "set (py_join sep ks) \<subseteq> set sep \<union> \<Union> (set ` set ks)"
  by (induction sep ks rule: py_join.induct) auto

lemma tight_py_join: "ks \<noteq> [] \<Longrightarrow> \<forall>k \<in> set ks. tight k \<Longrightarrow> tight (py_join sep ks)"
proof (induction sep ks rule: py_join.induct)
  case (3 sep x y ys)
  then have "tight (py_join sep (y # ys))" by simp
  with 3 show ?case by (simp add: tight_def)
qed simp_all

lemma py_join_Cons: "py_join sep (k # ks) = (if ks = [] then k else k @ sep @ py_join sep ks)"
  by (cases ks) simp_all

lemma lines_reparse:
  assumes ne: "\<And>k. keep k \<Longrightarrow> k \<noteq> []"
    and ext: "\<And>k r. keep k \<Longrightarrow> keep (k @ CHR '' '' # r)"
  shows "py_join '' '' (filter keep (map py_strip (py_split ''\<newline>''
           (py_join '' '' (filter keep (map py_strip (py_split ''\<newline>'' x)))))))
         = py_join '' '' (filter keep (map py_strip (py_split ''\<newline>'' x)))"
proof -
  define ks where "ks = filter keep (map py_strip (py_split ''\<newline>'' x))"
  define out where "out = py_join '' '' ks"
  have keep_ks: "\<forall>k \<in> set ks. keep k" by (simp add: ks_def)
  have tight_ks: "\<forall>k \<in> set ks. tight k"
    using ne py_strip_tight by (auto simp: ks_def)
  have nl_ks: "\<forall>k \<in> set ks. CHR ''\<newline>'' \<notin> set k"
    using py_split_char_notin set_py_strip by (fastforce simp: ks_def)
  show ?thesis
  proof (cases ks)
    case Nil
    have "\<not> keep []" using ne by blast
    with Nil show ?thesis unfolding ks_def[symmetric] by (simp add: py_strip_def)
  next
    case (Cons k ks')
    have "keep out"
      using keep_ks ext[of k] by (simp add: out_def Cons py_join_Cons)
    moreover have "tight out"
      unfolding out_def using tight_ks Cons by (intro tight_py_join) simp_all
    moreover have "CHR ''\<newline>'' \<notin> set out"
      using nl_ks set_py_join[of "'' ''" ks] by (auto simp: out_def)
    ultimately have "py_join '' '' (filter keep (map py_strip (py_split ''\<newline>'' out))) = out"
      by (simp add: py_split_char_id tight_py_strip)
    then show ?thesis by (simp add: out_def ks_def)
  qed
qed

lemma prefix_no_space_ext:
  "CHR '' '' \<notin> set w \<Longrightarrow> \<not> prefix w k \<Longrightarrow> \<not> prefix w (k @ CHR '' '' # r)"
  by (auto simp: prefix_append prefix_Cons)

lemma mmss_iff:
  "re_match_mmss s \<longleftrightarrow>
     (5 \<le> length s \<and> py_isdigit (s ! 0) \<and> py_isdigit (s ! 1) \<and> s ! 2 = CHR '':'' \<and>
      py_isdigit (s ! 3) \<and> py_isdigit (s ! 4))"
  by (induction s rule: re_match_mmss.induct) auto

lemma mmss_ext: "k \<noteq> [] \<Longrightarrow> re_match_mmss (k @ CHR '' '' # r) \<Longrightarrow> re_match_mmss k"
proof -
  assume k: "k \<noteq> []" and m: "re_match_mmss (k @ CHR '' '' # r)"
  let ?s = "k @ CHR '' '' # r"
  have nsp: "\<not> py_isdigit (CHR '' '')" by (simp add: py_isdigit_def)
  have at: "?s ! length k = CHR '' ''" by simp
  from m have d1: "py_isdigit (?s ! 1)" and c2: "?s ! 2 = CHR '':''"
    and d3: "py_isdigit (?s ! 3)" and d4: "py_isdigit (?s ! 4)"
    unfolding mmss_iff by simp_all
  have "5 \<le> length k"
  proof (rule ccontr)
    assume "\<not> 5 \<le> length k"
    moreover have "0 < length k" using k by simp
    ultimately consider "length k = 1" | "length k = 2" | "length k = 3" | "length k = 4"
      by linarith
    then show False
    proof cases
      case 1
      with at have "?s ! 1 = CHR '' ''" by simp
      with d1 nsp show False by simp
    next
      case 2
      with at have "?s ! 2 = CHR '' ''" by simp
      with c2 show False by simp
    next
      case 3
      with at have "?s ! 3 = CHR '' ''" by simp
      with d3 nsp show False by simp
    next
      case 4
      with at have "?s ! 4 = CHR '' ''" by simp
      with d4 nsp show False by simp
    qed
  qed
  with m k show ?thesis unfolding mmss_iff by (auto simp: nth_append)
qed

lemma hhmmss_imp_mmss: "re_match_hhmmss s \<Longrightarrow> re_match_mmss s"
  by (induction s rule: re_match_hhmmss.induct) simp_all

lemma vtt_keep_ext: "vtt_keep k \<Longrightarrow> vtt_keep (k @ CHR '' '' # r)"
  unfolding vtt_keep_def py_startswith_def re_match_arrow_def
  using mmss_ext[of k r] hhmmss_imp_mmss[of "k @ CHR '' '' # r"] prefix_no_space_ext[of "''WEBVTT''" k r]
  by (auto simp: append_eq_Cons_conv Cons_eq_append_conv)

lemma index_ext: "\<not> re_match_index (k @ CHR '' '' # r)"
  unfolding re_match_index_def Let_def
  by (auto simp: list_all_iff py_isdigit_def butlast_append dest: in_set_butlastD)

lemma srt_keep_ext: "srt_keep k \<Longrightarrow> srt_keep (k @ CHR '' '' # r)"
  unfolding srt_keep_def re_match_arrow_def
  using mmss_ext[of k r] index_ext[of k r]
  by (auto simp: append_eq_Cons_conv Cons_eq_append_conv)

lemma dropWhile_collapse_ws:
  "s = [] \<or> \<not> py_isspace (hd s) \<Longrightarrow> dropWhile py_isspace (collapse_ws s) = collapse_ws s"
  by (cases s) auto

lemma dropWhile_head: "dropWhile P xs = [] \<or> \<not> P (hd (dropWhile P xs))"
  by (metis hd_dropWhile)

lemma collapse_ws_idem: "collapse_ws (collapse_ws s) = collapse_ws s"
proof (induction s rule: collapse_ws.induct)
  case (2 c cs)
  show ?case
  proof (cases "py_isspace c")
    case True
    have sp: "py_isspace (CHR '' '')" by (simp add: py_isspace_def)
    have "dropWhile py_isspace (collapse_ws (dropWhile py_isspace cs))
            = collapse_ws (dropWhile py_isspace cs)"
      by (rule dropWhile_collapse_ws) (rule dropWhile_head)
    with True 2 sp show ?thesis by simp
  next
    case False
    with 2 show ?thesis by simp
  qed
qed simp

section \<open>The orchestrator: acceptance, order and fallback\<close>

lemma py_contains_prefix: "prefix sub s \<Longrightarrow> py_contains sub s"
  by (cases s) auto

lemma py_contains_append: "py_contains sub (a @ sub @ b)"
  by (induction a) (simp_all add: py_contains_prefix)

lemma accepted_iff: "accepted t \<longleftrightarrow> (\<exists>s. t = Some s \<and> 500 < length s)"
  by (cases t) (auto simp: accepted_def)

lemma process_youtube_url_run:
  assumes "fetch_metadata w video_url fs = (Some metadata, fs1)"
    and "resolve_video_id w metadata video_url fs1 = (video_id, fs2)"
    and "truthy video_id"
  shows "process_youtube_url w video_url fs = Inr (run_strategies w video_id video_url metadata fs2)"
  using assms by (simp add: process_youtube_url_def)

lemma run_strategies_first:
  "accepted (get_transcript_with_youtube_transcript_api w v) \<Longrightarrow>
   result_text (run_strategies w v u m fs) = get_transcript_with_youtube_transcript_api w v \<and>
   strategies_called (run_strategies w v u m fs) = [TranscriptApi]"
  by (simp add: run_strategies_def)

lemma run_strategies_second:
  "\<not> accepted (get_transcript_with_youtube_transcript_api w v) \<Longrightarrow>
   accepted (get_transcript_from_proxy_service w v) \<Longrightarrow>
   result_text (run_strategies w v u m fs) = get_transcript_from_proxy_service w v \<and>
   strategies_called (run_strategies w v u m fs) = [TranscriptApi, ProxyService]"
  by (simp add: run_strategies_def)

lemma run_strategies_third:
  "\<not> accepted (get_transcript_with_youtube_transcript_api w v) \<Longrightarrow>
   \<not> accepted (get_transcript_from_proxy_service w v) \<Longrightarrow>
   accepted (fst (get_full_transcript_with_enhanced_yt_dlp w u fs)) \<Longrightarrow>
   result_text (run_strategies w v u m fs) = fst (get_full_transcript_with_enhanced_yt_dlp w u fs) \<and>
   strategies_called (run_strategies w v u m fs) = [TranscriptApi, ProxyService, EnhancedYtDlp]"
  by (cases "get_full_transcript_with_enhanced_yt_dlp w u fs") (simp add: run_strategies_def)

lemma run_strategies_fourth:
  "\<not> accepted (get_transcript_with_youtube_transcript_api w v) \<Longrightarrow>
   \<not> accepted (get_transcript_from_proxy_service w v) \<Longrightarrow>
   \<not> accepted (fst (get_full_transcript_with_enhanced_yt_dlp w u fs)) \<Longrightarrow>
   strategies_called (run_strategies w v u m fs) = [TranscriptApi, ProxyService, EnhancedYtDlp, Invidious] \<and>
   result_text (run_strategies w v u m fs) =
     (if accepted (get_transcript_from_invidious_with_enhanced_options w v)
      then get_transcript_from_invidious_with_enhanced_options w v
      else partial_content (get_transcript_with_youtube_transcript_api w v)
             (get_transcript_from_proxy_service w v)
             (fst (get_full_transcript_with_enhanced_yt_dlp w u fs))
             (get_transcript_from_invidious_with_enhanced_options w v) m)"
  by (cases "get_full_transcript_with_enhanced_yt_dlp w u fs") (simp add: run_strategies_def Let_def)

lemma run_strategies_metadata: "result_metadata (run_strategies w v u m fs) = Some m"
  by (cases "get_full_transcript_with_enhanced_yt_dlp w u fs") (simp add: run_strategies_def Let_def)

lemma exception_escapes_iff:
  "(\<exists>e. process_youtube_url w video_url fs = Inl e) \<longleftrightarrow>
     fst (fetch_metadata w video_url fs) = None"
  by (cases "fetch_metadata w video_url fs")
     (auto simp: process_youtube_url_def split: option.splits prod.splits)

lemma exception_escapes_no_info:
  "fst (extract_info w MetadataOpts video_url fs) = Inr None \<Longrightarrow>
   process_youtube_url w video_url fs = Inl AttributeError"
  by (cases "extract_info w MetadataOpts video_url fs")
     (simp add: process_youtube_url_def fetch_metadata_def)

text \<open>
  Claim C1 says that no exception escapes \<^verbatim>\<open>process_youtube_url\<close>, whatever the
  backends do. Every strategy has its own handler, and the metadata step has a default for
  the case that yt-dlp raises; but when yt-dlp returns \<^verbatim>\<open>None\<close> (or an empty
  dictionary) without raising, \<^verbatim>\<open>metadata\<close> is still \<^verbatim>\<open>None\<close> on line 839 and
  \<^verbatim>\<open>metadata.get\<close> raises \<^verbatim>\<open>AttributeError\<close> outside every handler. The
  theorem evaluates the function there; by \<open>exception_escapes_iff\<close> this is
  the only way for an exception to escape.
\<close>

theorem process_youtube_url_raises:
  "process_youtube_url no_info_backend ''https://www.youtube.com/watch?v=dQw4w9WgXcQ'' Map.empty
     = Inl AttributeError"
  by (simp add: process_youtube_url_def fetch_metadata_def no_info_backend_def silent_backend_def)

text \<open>Evaluations at the concrete backends, used by the witnesses below.\<close>

lemma id_from_patterns_short_url:
  "id_from_patterns ''https://youtu.be/dQw4w9WgXcQ'' = Some (Inr ''dQw4w9WgXcQ'')"
  by code_simp

lemma resolve_video_id_short_url:
  "resolve_video_id w [(''title'', PStr ''Unknown''), (''source_url'', PStr u)]
       ''https://youtu.be/dQw4w9WgXcQ'' fs
     = (PStr ''dQw4w9WgXcQ'', fs)"
  by (simp add: resolve_video_id_def dict_get_def truthy_def extract_video_id_def
        id_from_patterns_short_url)

lemma partial_backend_full_transcript:
  "fst (get_full_transcript_with_enhanced_yt_dlp partial_backend
          ''https://youtu.be/dQw4w9WgXcQ'' Map.empty)
     = Some ''Title: Unknown\<newline>Author: Unknown\<newline>\<newline>Unable to extract content from this YouTube video.''"
  by code_simp

lemma partial_backend_invidious:
  "get_transcript_from_invidious_with_enhanced_options partial_backend (PStr ''dQw4w9WgXcQ'')
     = Some (replicate 400 (CHR ''b''))"
  by code_simp

lemma metadata_only_backend_full_transcript:
  "fst (get_full_transcript_with_enhanced_yt_dlp metadata_only_backend
          ''https://example.com/clip'' Map.empty) = None"
  by code_simp

text \<open>
  Claim C2. Once the metadata are there and the video id is resolved,
  \<^verbatim>\<open>process_youtube_url\<close> runs the four strategies in the fixed order transcript
  API, proxied transcript API, subtitle/download, mirror. A strategy's output is final
  exactly when it is a text of more than 500 characters: then that text is returned and
  no later strategy is invoked; otherwise the next strategy is tried.
\<close>

theorem strategies_accepted_in_order:
  assumes "fetch_metadata w video_url fs = (Some metadata, fs1)"
    and "resolve_video_id w metadata video_url fs1 = (video_id, fs2)"
    and "truthy video_id"
    and "t1 = get_transcript_with_youtube_transcript_api w video_id"
    and "t2 = get_transcript_from_proxy_service w video_id"
    and "t3 = fst (get_full_transcript_with_enhanced_yt_dlp w video_url fs2)"
    and "t4 = get_transcript_from_invidious_with_enhanced_options w video_id"
  shows "\<exists>r. process_youtube_url w video_url fs = Inr r \<and> result_metadata r = Some metadata \<and>
           (if accepted t1 then result_text r = t1 \<and> strategies_called r = [TranscriptApi]
            else if accepted t2
              then result_text r = t2 \<and> strategies_called r = [TranscriptApi, ProxyService]
            else if accepted t3
              then result_text r = t3 \<and>
                   strategies_called r = [TranscriptApi, ProxyService, EnhancedYtDlp]
            else strategies_called r = [TranscriptApi, ProxyService, EnhancedYtDlp, Invidious] \<and>
                 (if accepted t4 then result_text r = t4 else True)) \<and>
           (\<forall>t. accepted t = (\<exists>s. t = Some s \<and> 500 < length s))"
  using assms run_strategies_first[of w video_id video_url metadata fs2]
    run_strategies_second[of w video_id video_url metadata fs2]
    run_strategies_third[of w video_id video_url fs2 metadata]
    run_strategies_fourth[of w video_id video_url fs2 metadata]
  by (simp add: process_youtube_url_run run_strategies_metadata accepted_iff)

theorem strategies_accepted_in_order_witness:
  "map_sum id result_text
     (process_youtube_url long_transcript_backend ''https://youtu.be/dQw4w9WgXcQ'' Map.empty)
     = Inr (Some (replicate 600 (CHR ''a''))) \<and>
   map_sum id strategies_called
     (process_youtube_url long_transcript_backend ''https://youtu.be/dQw4w9WgXcQ'' Map.empty)
     = Inr [TranscriptApi]"
proof -
  let ?u = "''https://youtu.be/dQw4w9WgXcQ''"
  let ?md = "[(''title'', PStr ''Unknown''), (''source_url'', PStr ?u)]"
  have h1: "fetch_metadata long_transcript_backend ?u Map.empty = (Some ?md, Map.empty)"
    by (simp add: fetch_metadata_def long_transcript_backend_def silent_backend_def)
  have h2: "resolve_video_id long_transcript_backend ?md ?u Map.empty
              = (PStr ''dQw4w9WgXcQ'', Map.empty)"
    by (rule resolve_video_id_short_url)
  have h3: "truthy (PStr ''dQw4w9WgXcQ'')" by (simp add: truthy_def)
  have a: "accepted (get_transcript_with_youtube_transcript_api long_transcript_backend
                       (PStr ''dQw4w9WgXcQ''))"
    by (simp add: accepted_def long_transcript_backend_def silent_backend_def)
  from strategies_accepted_in_order[OF h1 h2 h3 refl refl refl refl] a
  show ?thesis by (auto simp: long_transcript_backend_def silent_backend_def)
qed

text \<open>
  Claim C3, as amended. When all four strategies have run and none produced a text of more
  than 500 characters, \<^verbatim>\<open>process_youtube_url\<close> returns the first non-empty
  candidate in the priority order of the strategies (not the longest one), and the stub
  when there is none.
\<close>

theorem partial_content_by_priority:
  assumes "fetch_metadata w video_url fs = (Some metadata, fs1)"
    and "resolve_video_id w metadata video_url fs1 = (video_id, fs2)"
    and "truthy video_id"
    and "t1 = get_transcript_with_youtube_transcript_api w video_id"
    and "t2 = get_transcript_from_proxy_service w video_id"
    and "t3 = fst (get_full_transcript_with_enhanced_yt_dlp w video_url fs2)"
    and "t4 = get_transcript_from_invidious_with_enhanced_options w video_id"
    and "\<not> accepted t1" "\<not> accepted t2" "\<not> accepted t3" "\<not> accepted t4"
  shows "\<exists>r. process_youtube_url w video_url fs = Inr r \<and>
           result_text r =
             (case filter nonempty [t1, t2, t3, t4] of
                t # ts \<Rightarrow> t
              | [] \<Rightarrow> Some (unable_text metadata))"
  using assms run_strategies_fourth[of w video_id video_url fs2 metadata]
  by (simp add: process_youtube_url_run partial_content_def)

theorem partial_content_by_priority_witness:
  "map_sum id result_text
     (process_youtube_url partial_backend ''https://youtu.be/dQw4w9WgXcQ'' Map.empty)
     = Inr (Some (replicate 50 (CHR ''a'')))"
proof -
  let ?u = "''https://youtu.be/dQw4w9WgXcQ''"
  let ?md = "[(''title'', PStr ''Unknown''), (''source_url'', PStr ?u)]"
  have h1: "fetch_metadata partial_backend ?u Map.empty = (Some ?md, Map.empty)"
    by (simp add: fetch_metadata_def partial_backend_def silent_backend_def)
  have h2: "resolve_video_id partial_backend ?md ?u Map.empty = (PStr ''dQw4w9WgXcQ'', Map.empty)"
    by (rule resolve_video_id_short_url)
  have h3: "truthy (PStr ''dQw4w9WgXcQ'')" by (simp add: truthy_def)
  have t1: "get_transcript_with_youtube_transcript_api partial_backend (PStr ''dQw4w9WgXcQ'')
              = Some (replicate 50 (CHR ''a''))"
    and t2: "get_transcript_from_proxy_service partial_backend (PStr ''dQw4w9WgXcQ'') = None"
    by (simp_all add: partial_backend_def silent_backend_def)
  have n1: "\<not> accepted (get_transcript_with_youtube_transcript_api partial_backend
                        (PStr ''dQw4w9WgXcQ''))"
    and n2: "\<not> accepted (get_transcript_from_proxy_service partial_backend (PStr ''dQw4w9WgXcQ''))"
    and n3: "\<not> accepted (fst (get_full_transcript_with_enhanced_yt_dlp partial_backend ?u Map.empty))"
    and n4: "\<not> accepted (get_transcript_from_invidious_with_enhanced_options partial_backend
                        (PStr ''dQw4w9WgXcQ''))"
    unfolding t1 t2 partial_backend_full_transcript partial_backend_invidious
    by (simp_all add: accepted_def)
  from partial_content_by_priority[OF h1 h2 h3 refl refl refl refl n1 n2 n3 n4]
  show ?thesis by (auto simp: t1 nonempty_def)
qed

text \<open>
  The claim as it was stated fails: with 50 characters from the transcript API and 400
  from the mirror, the 50 characters of the first strategy are returned.
\<close>

theorem partial_content_by_priority_counterexample:
  "get_transcript_with_youtube_transcript_api partial_backend (PStr ''dQw4w9WgXcQ'')
     = Some (replicate 50 (CHR ''a'')) \<and>
   get_transcript_from_invidious_with_enhanced_options partial_backend (PStr ''dQw4w9WgXcQ'')
     = Some (replicate 400 (CHR ''b'')) \<and>
   map_sum id result_text
     (process_youtube_url partial_backend ''https://youtu.be/dQw4w9WgXcQ'' Map.empty)
     = Inr (Some (replicate 50 (CHR ''a'')))"
  by code_simp

text \<open>
  Claim C9. If every strategy returns \<^verbatim>\<open>None\<close> or an empty text,
  \<^verbatim>\<open>process_youtube_url\<close> returns as transcript a stub that contains
  \<^verbatim>\<open>Title:\<close> and \<^verbatim>\<open>Unable to extract content\<close> together with the title and
  the author of the metadata (\<^verbatim>\<open>Unknown\<close> for an entry that the metadata lack).
\<close>

theorem stub_when_nothing_found:
  assumes "fetch_metadata w video_url fs = (Some metadata, fs1)"
    and "resolve_video_id w metadata video_url fs1 = (video_id, fs2)"
    and "truthy video_id"
    and "\<forall>t \<in> {get_transcript_with_youtube_transcript_api w video_id,
                 get_transcript_from_proxy_service w video_id,
                 fst (get_full_transcript_with_enhanced_yt_dlp w video_url fs2),
                 get_transcript_from_invidious_with_enhanced_options w video_id}.
            t = None \<or> t = Some []"
  shows "\<exists>r. process_youtube_url w video_url fs = Inr r \<and>
           result_text r = Some (unable_text metadata) \<and> result_metadata r = Some metadata \<and>
           py_contains ''Title:'' (unable_text metadata) \<and>
           py_contains ''Unable to extract content'' (unable_text metadata) \<and>
           py_contains (py_str (dict_get metadata ''title'' (PStr ''Unknown''))) (unable_text metadata) \<and>
           py_contains (py_str (dict_get metadata ''author'' (PStr ''Unknown''))) (unable_text metadata)"
proof -
  let ?t = "py_str (dict_get metadata ''title'' (PStr ''Unknown''))"
  let ?a = "py_str (dict_get metadata ''author'' (PStr ''Unknown''))"
  have na: "\<not> accepted t" "\<not> nonempty t" if "t = None \<or> t = Some []" for t
    using that by (auto simp: accepted_def nonempty_def)
  from assms(4) na
  have "result_text (run_strategies w video_id video_url metadata fs2) = Some (unable_text metadata)"
    using run_strategies_fourth[of w video_id video_url fs2 metadata]
    by (simp add: partial_content_def)
  moreover have "py_contains ''Title:'' (unable_text metadata)"
    using py_contains_append[of "''Title:''" "[]"] by (simp add: unable_text_def)
  moreover have "py_contains ''Unable to extract content'' (unable_text metadata)"
    using py_contains_append[of "''Unable to extract content''"
            "''Title: '' @ ?t @ ''\<newline>Author: '' @ ?a @ ''\<newline>\<newline>''" "'' from this YouTube video.''"]
    by (simp add: unable_text_def)
  moreover have "py_contains ?t (unable_text metadata)"
    using py_contains_append[of ?t "''Title: ''"] by (simp add: unable_text_def)
  moreover have "py_contains ?a (unable_text metadata)"
    using py_contains_append[of ?a "''Title: '' @ ?t @ ''\<newline>Author: ''"]
    by (simp add: unable_text_def)
  ultimately show ?thesis
    using assms(1-3) by (simp add: process_youtube_url_run run_strategies_metadata)
qed

theorem stub_when_nothing_found_witness:
  "map_sum id result_text
     (process_youtube_url metadata_only_backend ''https://example.com/clip'' Map.empty)
     = Inr (Some ''Title: Big Buck Bunny\<newline>Author: Blender\<newline>\<newline>Unable to extract content from this YouTube video.'')"
proof -
  let ?u = "''https://example.com/clip''"
  let ?md = "[(''title'', PStr ''Big Buck Bunny''), (''author'', PStr ''Blender''),
              (''length_seconds'', PInt 0), (''views'', PInt 0), (''publish_date'', PNone),
              (''video_id'', PStr ''dQw4w9WgXcQ''), (''thumbnail_url'', PNone),
              (''source_url'', PStr ?u)]"
  have h1: "fetch_metadata metadata_only_backend ?u Map.empty = (Some ?md, Map.empty)"
    by (simp add: fetch_metadata_def metadata_only_backend_def silent_backend_def
          metadata_of_info_def dict_get_def info_truthy_def)
  have h2: "resolve_video_id metadata_only_backend ?md ?u Map.empty
              = (PStr ''dQw4w9WgXcQ'', Map.empty)"
    by (simp add: resolve_video_id_def dict_get_def truthy_def)
  have h3: "truthy (PStr ''dQw4w9WgXcQ'')" by (simp add: truthy_def)
  have h4: "\<forall>t \<in> {get_transcript_with_youtube_transcript_api metadata_only_backend
                    (PStr ''dQw4w9WgXcQ''),
                 get_transcript_from_proxy_service metadata_only_backend (PStr ''dQw4w9WgXcQ''),
                 fst (get_full_transcript_with_enhanced_yt_dlp metadata_only_backend ?u Map.empty),
                 get_transcript_from_invidious_with_enhanced_options metadata_only_backend
                    (PStr ''dQw4w9WgXcQ'')}.
            t = None \<or> t = Some []"
    unfolding metadata_only_backend_full_transcript
    by (simp add: metadata_only_backend_def silent_backend_def
          get_transcript_from_invidious_with_enhanced_options_def)
  from stub_when_nothing_found[OF h1 h2 h3 h4]
  show ?thesis by (auto simp: unable_text_def dict_get_def py_str_def)
qed

section \<open>The description fallbacks\<close>

lemma description_fallback_string:
  assumes "dict_get (info_fields i) ''title'' (PStr []) = PStr t"
    and "dict_get (info_fields i) ''description'' (PStr []) = PStr d"
  shows "description_fallback (Some i) metadata =
           Some (if t \<noteq> [] \<and> 100 < length d
                 then ''Title: '' @ t @ ''\<newline>\<newline>Description: '' @ d
                 else unable_text metadata)"
  using assms by (auto simp: description_fallback_def Let_def truthy_def title_description_def py_str_def)

lemma get_full_transcript_fallback:
  assumes info: "extract_info w SubtitleOpts video_url fs = (Inr (Some i), fs1)"
    and vid: "truthy (dict_get (info_fields i) ''id'' PNone)"
    and nofiles: "potential_subtitle_files fs1 (subtitle_path w) = []"
    and nosubs: "transcript_from_info (Some i) = None"
    and noaudio: "audio_transcript w video_url fs1 = (None, fs2)"
  shows "get_full_transcript_with_enhanced_yt_dlp w video_url fs =
           (description_fallback (Some i) (metadata_of_info i video_url), fs2)"
proof -
  from vid have "info_fields i \<noteq> []"
    by (auto simp: dict_get_def truthy_def)
  then have u: "usable_info (Inr (Some i)) = Some i"
    by (simp add: usable_info_def info_truthy_def)
  have m: "dict_get (metadata_of_info i video_url) ''video_id'' PNone
             = dict_get (info_fields i) ''id'' PNone"
    by (simp add: metadata_of_info_def dict_get_def)
  show ?thesis
    using vid nofiles nosubs noaudio
    by (simp add: get_full_transcript_with_enhanced_yt_dlp_def info u m Let_def)
qed

lemma invidious_description_fallback_string:
  assumes "vd_description data = Some (PStr d)"
  shows "invidious_description_fallback data =
           (if 200 < length d
            then Some (''Title: '' @ py_str (case vd_title data of Some t \<Rightarrow> t | None \<Rightarrow> PStr ''Unknown'')
                       @ ''\<newline>\<newline>Description: '' @ d)
            else None)"
  using assms by (auto simp: invidious_description_fallback_def title_description_def py_str_def)

lemma invidious_attempt_no_captions:
  assumes "captions_api w instance user_agent video_id = Inr (200, Inr (Some []))"
    and "video_api w instance user_agent video_id = Inr (200, Inr data)"
    and "vd_captions data = None \<or> vd_captions data = Some []"
  shows "invidious_attempt w video_id instance user_agent = invidious_description_fallback data"
  using assms by (auto simp: invidious_attempt_def video_details_step_def)

text \<open>
  Claim C4, as amended. The two description fallbacks have different thresholds. When the
  subtitle/download strategy has found no subtitle file, no subtitle entry and no usable
  audio transcript, it returns the title and description composite exactly when the title
  is not empty and the description has more than 100 characters (so also for one of 150
  characters), and its minimal stub otherwise. One pass of the mirror strategy that found
  no caption tracks returns the composite only when the description has more than 200
  characters, and yields nothing otherwise.
\<close>

theorem description_fallback_thresholds:
  assumes "extract_info w SubtitleOpts video_url fs = (Inr (Some i), fs1)"
    and "truthy (dict_get (info_fields i) ''id'' PNone)"
    and "potential_subtitle_files fs1 (subtitle_path w) = []"
    and "transcript_from_info (Some i) = None"
    and "audio_transcript w video_url fs1 = (None, fs2)"
    and "dict_get (info_fields i) ''title'' (PStr []) = PStr t"
    and "dict_get (info_fields i) ''description'' (PStr []) = PStr d"
    and "captions_api w instance user_agent video_id = Inr (200, Inr (Some []))"
    and "video_api w instance user_agent video_id = Inr (200, Inr data)"
    and "vd_captions data = None \<or> vd_captions data = Some []"
    and "vd_description data = Some (PStr d')"
  shows "fst (get_full_transcript_with_enhanced_yt_dlp w video_url fs) =
           Some (if t \<noteq> [] \<and> 100 < length d
                 then ''Title: '' @ t @ ''\<newline>\<newline>Description: '' @ d
                 else unable_text (metadata_of_info i video_url)) \<and>
         invidious_attempt w video_id instance user_agent =
           (if 200 < length d'
            then Some (''Title: '' @ py_str (case vd_title data of Some t' \<Rightarrow> t' | None \<Rightarrow> PStr ''Unknown'')
                       @ ''\<newline>\<newline>Description: '' @ d')
            else None)"
  using get_full_transcript_fallback[OF assms(1-5)] description_fallback_string[OF assms(6,7)]
    invidious_attempt_no_captions[OF assms(8-10)] invidious_description_fallback_string[OF assms(11)]
  by simp

theorem description_fallback_thresholds_witness:
  "fst (get_full_transcript_with_enhanced_yt_dlp described_backend
          ''https://www.youtube.com/watch?v=dQw4w9WgXcQ'' Map.empty)
     = Some (''Title: Big Buck Bunny\<newline>\<newline>Description: '' @ replicate 150 (CHR ''d'')) \<and>
   invidious_attempt described_backend (PStr ''dQw4w9WgXcQ'') ''https://mirror.example''
       ''Mozilla/5.0'' = None"
proof -
  let ?u = "''https://www.youtube.com/watch?v=dQw4w9WgXcQ''"
  let ?d = "replicate 150 (CHR ''d'')"
  let ?i = "\<lparr>info_fields = [(''id'', PStr ''dQw4w9WgXcQ''), (''title'', PStr ''Big Buck Bunny''),
                             (''uploader'', PStr ''Blender''), (''description'', PStr ?d)],
             info_subtitles = None\<rparr>"
  let ?data = "\<lparr>vd_title = Some (PStr ''Big Buck Bunny''), vd_description = Some (PStr ?d),
                vd_captions = None\<rparr>"
  have h1: "extract_info described_backend SubtitleOpts ?u Map.empty = (Inr (Some ?i), Map.empty)"
    by (simp add: described_backend_def silent_backend_def)
  have h2: "truthy (dict_get (info_fields ?i) ''id'' PNone)"
    by (simp add: dict_get_def truthy_def)
  have h3: "potential_subtitle_files Map.empty (subtitle_path described_backend) = []"
    by (simp add: potential_subtitle_files_def path_exists_def)
  have h4: "transcript_from_info (Some ?i) = None"
    by (simp add: transcript_from_info_def)
  have h5: "audio_transcript described_backend ?u Map.empty = (None, Map.empty)"
    by (simp add: audio_transcript_def described_backend_def silent_backend_def)
  have h6: "dict_get (info_fields ?i) ''title'' (PStr []) = PStr ''Big Buck Bunny''"
    and h7: "dict_get (info_fields ?i) ''description'' (PStr []) = PStr ?d"
    by (simp_all add: dict_get_def)
  have h8: "captions_api described_backend ''https://mirror.example'' ''Mozilla/5.0''
              (PStr ''dQw4w9WgXcQ'') = Inr (200, Inr (Some []))"
    and h9: "video_api described_backend ''https://mirror.example'' ''Mozilla/5.0''
              (PStr ''dQw4w9WgXcQ'') = Inr (200, Inr ?data)"
    by (simp_all add: described_backend_def silent_backend_def)
  have h10: "vd_captions ?data = None \<or> vd_captions ?data = Some []"
    and h11: "vd_description ?data = Some (PStr ?d)"
    by simp_all
  from description_fallback_thresholds[OF h1 h2 h3 h4 h5 h6 h7 h8 h9 h10 h11]
  show ?thesis by simp
qed

text \<open>
  The claim as it was stated fails for the subtitle/download strategy: a description of
  150 characters is returned in the composite, not replaced by the stub. The mirror yields
  nothing for the same description.
\<close>

theorem description_fallback_thresholds_counterexample:
  "length (replicate 150 (CHR ''d'')) = 150 \<and>
   fst (get_full_transcript_with_enhanced_yt_dlp described_backend
          ''https://www.youtube.com/watch?v=dQw4w9WgXcQ'' Map.empty)
     = Some (title_description (PStr ''Big Buck Bunny'') (PStr (replicate 150 (CHR ''d'')))) \<and>
   get_transcript_from_invidious_with_enhanced_options described_backend (PStr ''dQw4w9WgXcQ'')
     = None"
  by code_simp

section \<open>The WebVTT rule on well-formed inputs\<close>

lemma py_split_Cons_char:
  "c \<notin> set x \<Longrightarrow> py_split [c] (x @ c # s) = x # py_split [c] s"
  by (induction x) auto

lemma py_split_join_char:
  "ls \<noteq> [] \<Longrightarrow> \<forall>l \<in> set ls. c \<notin> set l \<Longrightarrow> py_split [c] (py_join [c] ls) = ls"
proof (induction "[c]" ls rule: py_join.induct)
  case (3 x y ys)
  then show ?case by (simp add: py_split_Cons_char)
qed (simp_all add: py_split_char_id)

lemma py_join_split_char: "py_join [c] (py_split [c] s) = s"
proof (induction s)
  case (Cons a s)
  show ?case
  proof (cases "a = c")
    case True
    with Cons show ?thesis using py_split_not_Nil[of "[c]" s]
      by (cases "py_split [c] s") auto
  next
    case False
    with Cons show ?thesis using py_split_not_Nil[of "[c]" s]
      by (cases "py_split [c] s") (auto simp: py_join_Cons)
  qed
qed simp

lemma py_rstrip_Cons: "\<not> py_isspace c \<Longrightarrow> py_rstrip (c # r) = c # py_rstrip r"
  by (simp add: py_rstrip_def dropWhile_append)

lemma py_strip_nonspace_prefix:
  "p \<noteq> [] \<Longrightarrow> \<forall>c \<in> set p. \<not> py_isspace c \<Longrightarrow> py_strip (p @ r) = p @ py_rstrip r"
proof -
  assume p: "p \<noteq> []" and ns: "\<forall>c \<in> set p. \<not> py_isspace c"
  have "py_rstrip (q @ r) = q @ py_rstrip r" if "\<forall>c \<in> set q. \<not> py_isspace c" for q
    using that by (induction q) (simp_all add: py_rstrip_Cons)
  moreover have "dropWhile py_isspace (p @ r) = p @ r"
    using p ns by (cases p) auto
  ultimately show ?thesis using ns by (simp add: py_strip_def py_rstrip_def)
qed

lemma padding_space: "padding s \<Longrightarrow> \<forall>c \<in> set s. py_isspace c"
  by (simp add: padding_def list_all_iff)

lemma padding_no_newline: "padding s \<Longrightarrow> CHR ''\<newline>'' \<notin> set s"
  by (auto simp: padding_def list_all_iff)

lemma py_strip_padded:
  assumes "\<forall>c \<in> set before. py_isspace c" and "\<forall>c \<in> set after. py_isspace c"
  shows "py_strip (before @ x @ after) = py_strip x"
proof -
  have l: "dropWhile py_isspace (before @ x @ after) = dropWhile py_isspace (x @ after)"
    using assms(1) by (simp add: dropWhile_append2)
  have a: "dropWhile py_isspace (rev after @ z) = dropWhile py_isspace z" for z
    using assms(2) by (intro dropWhile_append2) simp
  show ?thesis
  proof (cases "\<forall>c \<in> set x. py_isspace c")
    case True
    with assms(2) have "\<forall>c \<in> set (x @ after). py_isspace c" by auto
    then have "dropWhile py_isspace (x @ after) = []" by (simp only: dropWhile_eq_Nil_conv)
    moreover from True have "dropWhile py_isspace x = []" by (simp only: dropWhile_eq_Nil_conv)
    ultimately show ?thesis using l by (simp only: py_strip_def)
  next
    case False
    then have "dropWhile py_isspace (x @ after) = dropWhile py_isspace x @ after"
      by (auto simp: dropWhile_append1)
    with l a show ?thesis by (simp add: py_strip_def)
  qed
qed

lemma caption_text_keep: "caption_text t \<Longrightarrow> vtt_keep t \<and> py_strip t = t"
  unfolding caption_text_def vtt_keep_def py_startswith_def re_match_arrow_def
  using hhmmss_imp_mmss[of t] by (auto simp: tight_py_strip tight_def py_isspace_def)

lemma nsp_digit: "py_isdigit c \<Longrightarrow> \<not> py_isspace c"
  by (auto simp: py_isdigit_def py_isspace_def)

lemma vtt_keep_core:
  assumes "well_formed_core l"
  shows "vtt_keep (py_strip (core l)) \<longleftrightarrow> (\<exists>t. l = Text t)"
    and "l = Text t \<Longrightarrow> py_strip (core l) = t"
proof -
  show "vtt_keep (py_strip (core l)) \<longleftrightarrow> (\<exists>t. l = Text t)"
  proof (cases l)
    case (Header r)
    have "py_strip (''WEBVTT'' @ r) = ''WEBVTT'' @ py_rstrip r"
      by (rule py_strip_nonspace_prefix) (simp_all add: py_isspace_def)
    with Header show ?thesis by (simp add: vtt_keep_def py_startswith_def)
  next
    case (Timestamp a b c d r)
    with assms have "py_strip ([a, b, CHR '':'', c, d] @ r) = [a, b, CHR '':'', c, d] @ py_rstrip r"
      by (intro py_strip_nonspace_prefix) (auto simp: nsp_digit, simp add: py_isspace_def)
    with Timestamp assms show ?thesis by (simp add: vtt_keep_def)
  next
    case Arrow
    have "py_strip ''-->'' = ''-->''" by (simp add: py_strip_def py_isspace_def)
    with Arrow show ?thesis by (simp add: vtt_keep_def re_match_arrow_def)
  next
    case Blank
    then show ?thesis by (simp add: vtt_keep_def py_strip_def)
  next
    case (Text t)
    with assms show ?thesis using caption_text_keep[of t] by simp
  qed
  show "l = Text t \<Longrightarrow> py_strip (core l) = t"
    using assms caption_text_keep[of t] by simp
qed

lemma vtt_filter_render:
  "\<forall>l \<in> set ls. well_formed l \<Longrightarrow> filter vtt_keep (map py_strip (map render ls)) = texts ls"
proof (induction ls)
  case Nil
  then show ?case by simp
next
  case (Cons pl ls)
  then have IH: "filter vtt_keep (map py_strip (map render ls)) = texts ls" by simp
  obtain before l after where pl: "pl = (before, l, after)" by (cases pl)
  with Cons.prems have wf: "well_formed_core l" and pb: "padding before" and pa: "padding after"
    by simp_all
  have s: "py_strip (render pl) = py_strip (core l)"
    using py_strip_padded[OF padding_space[OF pb] padding_space[OF pa]] pl by simp
  show ?case
  proof (cases "\<exists>t. l = Text t")
    case True
    then obtain t where t: "l = Text t" by blast
    with vtt_keep_core[OF wf] s have "vtt_keep (py_strip (render pl))" "py_strip (render pl) = t"
      by auto
    with IH t pl show ?thesis by simp
  next
    case False
    with vtt_keep_core(1)[OF wf] s have k: "\<not> vtt_keep (py_strip (render pl))" by simp
    from False have "texts (pl # ls) = texts ls" unfolding pl by (cases l) simp_all
    with k IH show ?thesis by simp
  qed
qed

lemma core_no_newline: "well_formed_core l \<Longrightarrow> CHR ''\<newline>'' \<notin> set (core l)"
  by (cases l) (auto simp: py_isdigit_def)

lemma render_no_newline: "well_formed pl \<Longrightarrow> CHR ''\<newline>'' \<notin> set (render pl)"
  by (cases pl) (auto dest: padding_no_newline core_no_newline)

lemma has_digit_colon_space:
  "has_digit_colon (x @ CHR '' '' # y) \<longleftrightarrow> has_digit_colon x \<or> has_digit_colon y"
proof (induction x)
  case Nil
  show ?case by (cases y) (simp_all add: py_isdigit_def)
next
  case (Cons a x)
  show ?case
  proof (cases x)
    case Nil
    then show ?thesis by (cases y) (simp_all add: py_isdigit_def)
  next
    case (Cons b x')
    with Cons.IH show ?thesis by simp
  qed
qed

lemma has_digit_colon_join:
  "has_digit_colon (py_join '' '' ts) \<Longrightarrow> \<exists>t \<in> set ts. has_digit_colon t"
  by (induction "'' ''" ts rule: py_join.induct) (auto simp: has_digit_colon_space)

lemma timestamp_of_core:
  "re_match_mmss s \<Longrightarrow> core (timestamp_of s) = s \<and>
     (CHR ''\<newline>'' \<notin> set s \<longrightarrow> well_formed_core (timestamp_of s))"
  by (induction s rule: re_match_mmss.induct) simp_all

lemma kind_of_core:
  assumes "s = [] \<or> tight s" and "CHR ''\<newline>'' \<notin> set s"
  shows "core (kind_of s) = s \<and> well_formed_core (kind_of s)"
proof -
  have h: "core (Header (drop (length ''WEBVTT'') s)) = s" if "prefix ''WEBVTT'' s"
    using that by (auto simp: prefix_def)
  have n: "CHR ''\<newline>'' \<notin> set (drop k s)" for k
    using assms(2) by (auto dest: in_set_dropD)
  show ?thesis
    using assms timestamp_of_core[of s] h
    by (auto simp: kind_of_def caption_text_def n)
qed

lemma line_of_render:
  assumes "CHR ''\<newline>'' \<notin> set s"
  shows "render (line_of s) = s \<and> well_formed (line_of s)"
proof -
  let ?d = "dropWhile py_isspace s"
  let ?a = "rev (takeWhile py_isspace (rev ?d))"
  have d: "?d = py_strip s @ ?a"
  proof -
    have "rev (dropWhile py_isspace xs) @ rev (takeWhile py_isspace xs) = rev xs" for xs
      by (simp only: rev_append[symmetric] takeWhile_dropWhile_id)
    from this[of "rev ?d"] show ?thesis by (simp add: py_strip_def)
  qed
  have s: "s = takeWhile py_isspace s @ py_strip s @ ?a"
    using d takeWhile_dropWhile_id[of py_isspace s] by simp
  have t: "py_strip s = [] \<or> tight (py_strip s)" using py_strip_tight by blast
  have n: "CHR ''\<newline>'' \<notin> set (py_strip s)" using assms set_py_strip by blast
  have pb: "padding (takeWhile py_isspace s)"
    using assms by (auto simp: padding_def list_all_iff dest: set_takeWhileD)
  have "set ?a \<subseteq> set s" by (auto dest!: set_takeWhileD set_dropWhileD)
  with assms have pa: "padding ?a"
    by (auto simp: padding_def list_all_iff dest: set_takeWhileD)
  from kind_of_core[OF t n] s pb pa show ?thesis by (simp add: line_of_def)
qed

text \<open>
  Claim C5, as amended. A WebVTT input is a sequence of lines, each with any whitespace
  before and after it: header lines (starting with \<^verbatim>\<open>WEBVTT\<close>), cue timing lines
  (starting with two digits, a colon and two digits), pure cue-arrow lines, blank lines
  and N caption text lines, where a text line, once the whitespace around it is taken
  away, is not empty, does not itself start with \<^verbatim>\<open>WEBVTT\<close> or with two digits, a
  colon and two digits, and is not the arrow. For such an input the WebVTT rule returns
  the N text lines, each without the whitespace around it, in order, joined by single
  spaces. A digit followed by a colon is left in the output only where a text line has
  one. Every input text is such a sequence of lines.
\<close>

theorem vtt_text_lines:
  "((\<forall>l \<in> set ls. well_formed l) \<longrightarrow>
      parse_vtt (py_join ''\<newline>'' (map render ls)) = py_join '' '' (texts ls) \<and>
      (has_digit_colon (parse_vtt (py_join ''\<newline>'' (map render ls)))
         \<longrightarrow> (\<exists>t \<in> set (texts ls). has_digit_colon t))) \<and>
   (\<exists>ls'. (\<forall>l \<in> set ls'. well_formed l) \<and> content = py_join ''\<newline>'' (map render ls'))"
proof (intro conjI impI)
  assume wf: "\<forall>l \<in> set ls. well_formed l"
  show eq: "parse_vtt (py_join ''\<newline>'' (map render ls)) = py_join '' '' (texts ls)"
  proof (cases ls)
    case Nil
    then show ?thesis by (simp add: parse_vtt_def py_strip_def vtt_keep_def)
  next
    case (Cons l ls')
    have "py_split ''\<newline>'' (py_join ''\<newline>'' (map render ls)) = map render ls"
      using wf Cons render_no_newline by (intro py_split_join_char) auto
    then show ?thesis using vtt_filter_render[OF wf] by (simp add: parse_vtt_def)
  qed
  assume "has_digit_colon (parse_vtt (py_join ''\<newline>'' (map render ls)))"
  then show "\<exists>t \<in> set (texts ls). has_digit_colon t"
    unfolding eq by (rule has_digit_colon_join)
next
  let ?ls = "map line_of (py_split ''\<newline>'' content)"
  have "\<forall>s \<in> set (py_split ''\<newline>'' content). CHR ''\<newline>'' \<notin> set s"
    using py_split_char_notin by blast
  then have "\<forall>l \<in> set ?ls. well_formed l" and "map render ?ls = py_split ''\<newline>'' content"
    using line_of_render by (auto simp: map_idI)
  then have "(\<forall>l \<in> set ?ls. well_formed l) \<and> content = py_join ''\<newline>'' (map render ?ls)"
    using py_join_split_char[of "CHR ''\<newline>''" content] by simp
  then show "\<exists>ls'. (\<forall>l \<in> set ls'. well_formed l) \<and> content = py_join ''\<newline>'' (map render ls')"
    by blast
qed

theorem vtt_text_lines_witness:
  "well_formed ([], Header [], []) \<and> well_formed ([], Blank, []) \<and>
   well_formed ([], Timestamp (CHR ''0'') (CHR ''0'') (CHR ''0'') (CHR ''1'') ''.000 --> 00:04.000'', '' '') \<and>
   well_formed (''  '', Text ''Hello there'', ''  '') \<and> well_formed ([], Arrow, []) \<and>
   well_formed ([], Text ''General Kenobi'', []) \<and>
   parse_vtt ''WEBVTT\<newline>\<newline>00:01.000 --> 00:04.000 \<newline>  Hello there  \<newline>\<newline>-->\<newline>General Kenobi\<newline>''
     = ''Hello there General Kenobi''"
proof -
  have wf: "\<forall>l \<in> set [([], Header [], []), ([], Blank, []),
                 ([], Timestamp (CHR ''0'') (CHR ''0'') (CHR ''0'') (CHR ''1'') ''.000 --> 00:04.000'', '' ''),
                 (''  '', Text ''Hello there'', ''  ''), ([], Blank, []), ([], Arrow, []),
                 ([], Text ''General Kenobi'', []), ([], Blank, [])]. well_formed l"
    by (simp add: caption_text_def tight_def py_isspace_def py_isdigit_def padding_def)
  show ?thesis
    using wf vtt_text_lines[where content = "[]" and ls = "[([], Header [], []), ([], Blank, []),
                 ([], Timestamp (CHR ''0'') (CHR ''0'') (CHR ''0'') (CHR ''1'') ''.000 --> 00:04.000'', '' ''),
                 (''  '', Text ''Hello there'', ''  ''), ([], Blank, []), ([], Arrow, []),
                 ([], Text ''General Kenobi'', []), ([], Blank, [])]"]
    by simp
qed

text \<open>
  The claim as it was stated, for every non-empty text line and with the text lines
  returned as they are, fails: a text line that begins like a timing line or like the
  header is dropped, a text line that mentions a time of day is returned with its digits
  and colon, a text line with whitespace around it is returned without it, and a text
  line of whitespace only is dropped.
\<close>

theorem vtt_text_lines_counterexample:
  "parse_vtt ''WEBVTT\<newline>\<newline>00:01.000 --> 00:04.000\<newline>10:30 is the meeting time\<newline>'' = [] \<and>
   parse_vtt ''WEBVTT\<newline>\<newline>00:01.000 --> 00:04.000\<newline>WEBVTT is a caption format\<newline>'' = [] \<and>
   has_digit_colon (parse_vtt ''WEBVTT\<newline>\<newline>00:01.000 --> 00:04.000\<newline>Meet at 10:30 today\<newline>'') \<and>
   parse_vtt ''WEBVTT\<newline>\<newline>00:01.000 --> 00:04.000\<newline>  Hello there  \<newline>'' = ''Hello there'' \<and>
   parse_vtt ''WEBVTT\<newline>\<newline>00:01.000 --> 00:04.000\<newline>   \<newline>'' = []"
  by code_simp

section \<open>Re-parsing the parser's output\<close>

text \<open>
  Claim C6. The caption parser is idempotent: for every input text and for each of the
  three format rules (WebVTT, SRT, generic), parsing the flat text that the rule returned
  gives that text back unchanged.

  The output of the two line-based rules is one line without surrounding whitespace; it
  starts like the first kept line, so it is kept again. The output of the generic rule has
  only single spaces as whitespace.
\<close>

theorem parser_idempotent:
  "parse_vtt (parse_vtt x) = parse_vtt x \<and>
   parse_srt (parse_srt x) = parse_srt x \<and>
   parse_generic (parse_generic x) = parse_generic x"
  unfolding parse_vtt_def parse_srt_def parse_generic_def
  using lines_reparse[of vtt_keep x] lines_reparse[of srt_keep x] vtt_keep_ext srt_keep_ext
  by (simp add: collapse_ws_idem vtt_keep_def srt_keep_def)

theorem parser_idempotent_witness:
  "parse_vtt (parse_vtt ''WEBVTT\<newline>00:01.000 --> 00:04.000\<newline>Hello there'')
     = parse_vtt ''WEBVTT\<newline>00:01.000 --> 00:04.000\<newline>Hello there'' \<and>
   parse_srt (parse_srt ''1\<newline>00:00:01,000 --> 00:00:04,000\<newline>Hello there'')
     = parse_srt ''1\<newline>00:00:01,000 --> 00:00:04,000\<newline>Hello there'' \<and>
   parse_generic (parse_generic ''Hello   there \<newline> again'')
     = parse_generic ''Hello   there \<newline> again''"
  using parser_idempotent[of "''WEBVTT\<newline>00:01.000 --> 00:04.000\<newline>Hello there''"]
    parser_idempotent[of "''1\<newline>00:00:01,000 --> 00:00:04,000\<newline>Hello there''"]
    parser_idempotent[of "''Hello   there \<newline> again''"]
  by blast

section \<open>The audio file after transcription\<close>

lemma cleanup_audio_exists:
  "path_exists (cleanup_audio fs p) p \<longleftrightarrow> path_exists fs p \<and> isl (os_remove fs p)"
  by (cases "fs p") (auto simp: cleanup_audio_def os_remove_def path_exists_def split: node.splits)

lemma audio_method_exists:
  assumes "download_audio pw video_url fs = (Some audio_file, fs1)"
    and "transcribe_audio_pytube pw audio_file fs1 = (transcript, fs2)"
  shows "path_exists (snd (audio_method pw video_url fs)) audio_file \<longleftrightarrow>
           path_exists fs2 audio_file \<and> isl (os_remove fs2 audio_file)"
proof (cases "audio_file = []")
  case True
  then show ?thesis by (simp add: path_exists_def)
next
  case False
  show ?thesis
  proof (cases "os_remove fs2 audio_file")
    case (Inl e)
    with assms False show ?thesis by (simp add: audio_method_def)
  next
    case (Inr fs3)
    then have "fs3 = fs2(audio_file := None)"
      by (auto simp: os_remove_def split: if_splits option.splits node.splits)
    with Inr assms False show ?thesis by (simp add: audio_method_def path_exists_def)
  qed
qed

text \<open>
  Claim C7, as amended. After \<^verbatim>\<open>transcribe_audio\<close> completes, whether the
  transcription succeeded, returned \<^verbatim>\<open>None\<close> or an internal step raised, and
  whatever the backends did to the file system meanwhile, the audio file at the given path
  does not exist, unless \<^verbatim>\<open>os.remove\<close> itself fails on it: the file is still
  there exactly when it was there at the end of the transcription steps and removing it
  raised (then only a warning is logged). The same holds for the downloaded file after the
  audio block of the older orchestrator (lines 474 to 491).
\<close>

theorem transcribe_audio_removes_file:
  "(path_exists (snd (transcribe_audio w audio_path fs)) audio_path \<longleftrightarrow>
      path_exists (snd (transcribe_steps w audio_path fs)) audio_path \<and>
      isl (os_remove (snd (transcribe_steps w audio_path fs)) audio_path)) \<and>
   fst (transcribe_audio w audio_path fs) = fst (transcribe_steps w audio_path fs) \<and>
   (download_audio pw video_url fs = (Some audio_file, fs1) \<and>
    transcribe_audio_pytube pw audio_file fs1 = (transcript, fs2) \<longrightarrow>
      (path_exists (snd (audio_method pw video_url fs)) audio_file \<longleftrightarrow>
         path_exists fs2 audio_file \<and> isl (os_remove fs2 audio_file)))"
  using audio_method_exists[of pw video_url fs audio_file fs1 transcript fs2]
  by (simp add: transcribe_audio_def cleanup_audio_exists split: prod.splits)

theorem transcribe_audio_removes_file_witness:
  "path_exists [''/tmp/audio-1.mp3'' \<mapsto> File ''mp3''] ''/tmp/audio-1.mp3'' \<and>
   \<not> path_exists (snd (transcribe_audio silent_backend ''/tmp/audio-1.mp3''
                         [''/tmp/audio-1.mp3'' \<mapsto> File ''mp3''])) ''/tmp/audio-1.mp3'' \<and>
   download_audio audio_backend ''https://youtu.be/dQw4w9WgXcQ'' Map.empty
     = (Some ''/tmp/clip.mp3'', [''/tmp/clip.mp3'' \<mapsto> File ''mp3'']) \<and>
   \<not> path_exists (snd (audio_method audio_backend ''https://youtu.be/dQw4w9WgXcQ'' Map.empty))
       ''/tmp/clip.mp3''"
proof -
  let ?p = "''/tmp/audio-1.mp3''" and ?fs = "[''/tmp/audio-1.mp3'' \<mapsto> File ''mp3'']"
  let ?q = "''/tmp/clip.mp3''" and ?gs = "[''/tmp/clip.mp3'' \<mapsto> File ''mp3'']"
  have s: "snd (transcribe_steps silent_backend ?p ?fs) = ?fs"
    by (simp add: transcribe_steps_def transcribe_remote_def silent_backend_def)
  have r: "\<not> isl (os_remove ?fs ?p)" by (simp add: os_remove_def)
  have a: "\<not> path_exists (snd (transcribe_audio silent_backend ?p ?fs)) ?p"
    using transcribe_audio_removes_file[where w = silent_backend and audio_path = ?p
            and fs = ?fs] s r
    by simp
  have d: "download_audio audio_backend ''https://youtu.be/dQw4w9WgXcQ'' Map.empty = (Some ?q, ?gs)"
    by (simp add: audio_backend_def caption_only_backend_def)
  have t: "transcribe_audio_pytube audio_backend ?q ?gs = (Some ''never gonna let you down'', ?gs)"
    by (simp add: transcribe_audio_pytube_def audio_backend_def caption_only_backend_def)
  have r': "\<not> isl (os_remove ?gs ?q)" by (simp add: os_remove_def)
  have b: "\<not> path_exists (snd (audio_method audio_backend ''https://youtu.be/dQw4w9WgXcQ'' Map.empty)) ?q"
    using d t r' transcribe_audio_removes_file[where pw = audio_backend
            and video_url = "''https://youtu.be/dQw4w9WgXcQ''" and fs = Map.empty
            and audio_file = ?q and ?fs1.0 = ?gs and transcript = "Some ''never gonna let you down''"
            and ?fs2.0 = ?gs]
    by blast
  from a b d show ?thesis by (simp add: path_exists_def)
qed

text \<open>
  The claim as it was stated fails when the file cannot be removed: the transcription
  returns, a warning is logged and the file is still there.
\<close>

theorem transcribe_audio_removes_file_counterexample:
  "fst (transcribe_audio silent_backend ''/tmp/audio-1.mp3''
          [''/tmp/audio-1.mp3'' \<mapsto> Locked ''mp3'']) = None \<and>
   path_exists (snd (transcribe_audio silent_backend ''/tmp/audio-1.mp3''
                       [''/tmp/audio-1.mp3'' \<mapsto> Locked ''mp3''])) ''/tmp/audio-1.mp3''"
  by (simp add: transcribe_audio_def transcribe_steps_def transcribe_remote_def cleanup_audio_def
        os_remove_def path_exists_def silent_backend_def)

text \<open>
  In the older orchestrator the failure of the second \<^verbatim>\<open>os.remove\<close> (line 491)
  reaches the caller, and the file is still there.
\<close>

lemma pytube_cleanup_exception_escapes:
  "fst (process_youtube_url_pytube locked_audio_backend ''https://youtu.be/dQw4w9WgXcQ'' Map.empty)
     = Inl PermissionError \<and>
   path_exists (snd (process_youtube_url_pytube locked_audio_backend
                       ''https://youtu.be/dQw4w9WgXcQ'' Map.empty)) ''/tmp/clip.mp3''"
  by code_simp

section \<open>Resolving the video id from the URL\<close>

text \<open>
  How \<^verbatim>\<open>split\<close> and \<^verbatim>\<open>in\<close> act on a URL that is a prefix, a marker, an id and a
  rest: no separator starts inside a prefix that lacks its first character, and none
  lies across an id that lacks one of its characters.
\<close>

lemma prefix_hd: "sep \<noteq> [] \<Longrightarrow> prefix sep (c # s) \<Longrightarrow> hd sep = c"
  by (cases sep) auto

lemma py_contains_skip:
  "sep \<noteq> [] \<Longrightarrow> hd sep \<notin> set pre \<Longrightarrow> py_contains sep (pre @ s) = py_contains sep s"
  by (induction pre) (auto dest: prefix_hd)

lemma piece_Cons_skip:
  "\<not> (sep \<noteq> [] \<and> prefix sep (c # cs)) \<Longrightarrow> piece 1 sep (c # cs) = piece 1 sep cs"
  using py_split_not_Nil[of sep cs]
  by (cases "py_split sep cs") (auto simp: piece_def Let_def)

lemma piece_skip:
  "sep \<noteq> [] \<Longrightarrow> hd sep \<notin> set pre \<Longrightarrow> piece 1 sep (pre @ s) = piece 1 sep s"
proof (induction pre)
  case (Cons c pre)
  then have "\<not> (sep \<noteq> [] \<and> prefix sep (c # pre @ s))" by (auto dest: prefix_hd)
  then have "piece 1 sep (c # pre @ s) = piece 1 sep (pre @ s)" by (rule piece_Cons_skip)
  with Cons show ?case by simp
qed simp

lemma piece_hit:
  "sep \<noteq> [] \<Longrightarrow> piece 1 sep (sep @ s) = Inr (hd (py_split sep s))"
  using py_split_not_Nil[of sep s]
  by (cases sep; cases "py_split sep s") (auto simp: piece_def Let_def)

lemma piece_0: "piece 0 sep s = Inr (hd (py_split sep s))"
  using py_split_not_Nil[of sep s] by (cases "py_split sep s") (auto simp: piece_def Let_def)

lemma prefix_subset: "prefix sep s \<Longrightarrow> set sep \<subseteq> set s"
  by (auto simp: prefix_def)

lemma py_contains_subset: "py_contains sep s \<Longrightarrow> set sep \<subseteq> set s"
proof (induction s)
  case (Cons a s)
  from Cons.prems consider "prefix sep (a # s)" | "py_contains sep s" by auto
  then show ?case
  proof cases
    case 1
    then show ?thesis by (rule prefix_subset)
  next
    case 2
    with Cons.IH show ?thesis by auto
  qed
qed simp

lemma prefix_block:
  "q \<notin> set sep \<Longrightarrow> \<not> set sep \<subseteq> set x \<Longrightarrow> \<not> prefix sep (x @ q # y)"
  by (auto simp: prefix_append prefix_Cons dest: prefix_subset)

lemma py_contains_block:
  "q \<notin> set sep \<Longrightarrow> \<not> set sep \<subseteq> set x \<Longrightarrow>
   py_contains sep (x @ q # y) = py_contains sep y"
proof (induction x)
  case Nil
  then show ?case using prefix_block[of q sep "[]" y] by simp
next
  case (Cons c x)
  then have "\<not> set sep \<subseteq> set x" by auto
  with Cons have "py_contains sep (x @ q # y) = py_contains sep y" by simp
  moreover have "\<not> prefix sep ((c # x) @ q # y)" using Cons.prems by (rule prefix_block)
  ultimately show ?case by simp
qed

lemma hd_py_split_Cons:
  "\<not> prefix sep (c # cs) \<Longrightarrow> hd (py_split sep (c # cs)) = c # hd (py_split sep cs)"
  using py_split_not_Nil[of sep cs] by (cases "py_split sep cs") auto

lemma hd_py_split_block:
  "q \<notin> set sep \<Longrightarrow> \<not> set sep \<subseteq> set x \<Longrightarrow>
   hd (py_split sep (x @ q # y)) = x @ q # hd (py_split sep y)"
proof (induction x)
  case Nil
  then have "\<not> prefix sep (q # y)" using prefix_block[of q sep "[]" y] by simp
  then have "hd (py_split sep (q # y)) = q # hd (py_split sep y)" by (rule hd_py_split_Cons)
  then show ?case by simp
next
  case (Cons c x)
  then have "\<not> set sep \<subseteq> set x" by auto
  with Cons have "hd (py_split sep (x @ q # y)) = x @ q # hd (py_split sep y)" by simp
  moreover have "\<not> prefix sep (c # x @ q # y)"
    using prefix_block[OF Cons.prems] by simp
  then have "hd (py_split sep (c # x @ q # y)) = c # hd (py_split sep (x @ q # y))"
    by (rule hd_py_split_Cons)
  ultimately show ?case by simp
qed

lemma py_split_no_occurrence: "\<not> set sep \<subseteq> set x \<Longrightarrow> py_split sep x = [x]"
proof (induction x)
  case (Cons c x)
  then have "\<not> set sep \<subseteq> set x" by auto
  moreover have "\<not> prefix sep (c # x)" using Cons.prems prefix_subset by blast
  ultimately show ?case using Cons by simp
qed simp

lemma hd_py_split_char: "hd (py_split [c] s) = takeWhile (\<lambda>x. x \<noteq> c) s"
proof (induction s)
  case (Cons a s)
  then show ?case using py_split_not_Nil[of "[c]" s]
    by (cases "py_split [c] s") auto
qed simp

lemma cut_rest:
  assumes "c \<notin> set vid" "d \<notin> set vid" "rest = [] \<or> hd rest = c \<or> hd rest = d"
  shows "takeWhile (\<lambda>x. x \<noteq> d) (takeWhile (\<lambda>x. x \<noteq> c) (vid @ rest)) = vid"
proof -
  have a: "takeWhile (\<lambda>x. x \<noteq> e) vid = vid" if "e \<notin> set vid" for e
    using that by (induction vid) auto
  have b: "takeWhile (\<lambda>x. x \<noteq> e) (vid @ e # r) = vid" if "e \<notin> set vid" for e r
    using that by (simp add: takeWhile_append a[OF that] takeWhile_tail)
  show ?thesis
  proof (cases rest)
    case Nil
    with assms show ?thesis by (simp add: a)
  next
    case (Cons q r)
    with assms(3) consider "q = c" | "q \<noteq> c" "q = d" by auto
    then show ?thesis
    proof cases
      case 1
      with Cons assms show ?thesis by (simp add: b a)
    next
      case 2
      have "takeWhile (\<lambda>x. x \<noteq> c) (vid @ q # r) = vid @ q # takeWhile (\<lambda>x. x \<noteq> c) r"
        using assms(1) 2 by (induction vid) auto
      with 2 Cons assms show ?thesis by (simp add: b)
    qed
  qed
qed


lemma video_id_char_not:
  "video_id_char c \<Longrightarrow>
   c \<noteq> CHR ''?'' \<and> c \<noteq> CHR ''&'' \<and> c \<noteq> CHR ''/'' \<and> c \<noteq> CHR ''='' \<and> c \<noteq> CHR ''.''"
  by (auto simp: video_id_char_def py_isdigit_def)

lemma rest_of_id:
  assumes vid: "\<forall>c \<in> set vid. video_id_char c"
    and sep: "CHR ''/'' \<in> set sep \<or> CHR ''='' \<in> set sep"
      "CHR ''?'' \<notin> set sep" "CHR ''&'' \<notin> set sep"
    and rest: "rest = [] \<or> hd rest = CHR ''?'' \<or> hd rest = CHR ''&''"
  shows "\<exists>rest'. hd (py_split sep (vid @ rest)) = vid @ rest' \<and>
           (rest' = [] \<or> hd rest' = hd rest \<and> rest \<noteq> [])"
proof -
  have ns: "\<not> set sep \<subseteq> set vid" using vid sep(1) video_id_char_not by blast
  show ?thesis
  proof (cases rest)
    case Nil
    with ns show ?thesis by (simp add: py_split_no_occurrence)
  next
    case (Cons q y)
    with rest sep have "q \<notin> set sep" by auto
    with ns Cons show ?thesis by (simp add: hd_py_split_block)
  qed
qed

lemma two_cuts:
  assumes vid: "\<forall>c \<in> set vid. video_id_char c"
    and sep: "CHR ''/'' \<in> set sep \<or> CHR ''='' \<in> set sep"
      "CHR ''?'' \<notin> set sep" "CHR ''&'' \<notin> set sep"
    and rest: "rest = [] \<or> hd rest = CHR ''?'' \<or> hd rest = CHR ''&''"
  shows "then_piece (then_piece (Inr (hd (py_split sep (vid @ rest)))) 0 ''?'') 0 ''&'' = Inr vid"
proof -
  from rest_of_id[OF assms] obtain rest' where
    h: "hd (py_split sep (vid @ rest)) = vid @ rest'"
    and r: "rest' = [] \<or> hd rest' = hd rest \<and> rest \<noteq> []" by blast
  from r rest have r': "rest' = [] \<or> hd rest' = CHR ''?'' \<or> hd rest' = CHR ''&''" by auto
  have "CHR ''?'' \<notin> set vid" "CHR ''&'' \<notin> set vid" using vid video_id_char_not by blast+
  from cut_rest[OF this r'] h show ?thesis
    by (simp add: then_piece_def piece_0 hd_py_split_char)
qed

lemma one_cut:
  assumes vid: "\<forall>c \<in> set vid. video_id_char c"
    and sep: "CHR ''/'' \<in> set sep \<or> CHR ''='' \<in> set sep"
      "CHR ''?'' \<notin> set sep" "CHR ''&'' \<notin> set sep"
    and rest: "rest = [] \<or> hd rest = CHR ''&''"
  shows "then_piece (Inr (hd (py_split sep (vid @ rest)))) 0 ''&'' = Inr vid"
proof -
  from rest have rest2: "rest = [] \<or> hd rest = CHR ''?'' \<or> hd rest = CHR ''&''" by auto
  from rest_of_id[OF vid sep rest2] obtain rest' where
    h: "hd (py_split sep (vid @ rest)) = vid @ rest'"
    and r: "rest' = [] \<or> hd rest' = hd rest \<and> rest \<noteq> []" by blast
  from r rest have r': "rest' = [] \<or> hd rest' = CHR ''&'' \<or> hd rest' = CHR ''&''" by auto
  have "CHR ''&'' \<notin> set vid" using vid video_id_char_not by blast
  from cut_rest[OF this this r'] h show ?thesis
    by (simp add: then_piece_def piece_0 hd_py_split_char)
qed

lemma no_marker_in_id:
  assumes vid: "\<forall>c \<in> set vid. video_id_char c"
    and sep: "CHR ''/'' \<in> set sep" "CHR ''?'' \<notin> set sep" "CHR ''&'' \<notin> set sep"
    and rest: "rest = [] \<or> hd rest = CHR ''?'' \<or> hd rest = CHR ''&''"
    and no: "\<not> py_contains sep rest"
  shows "\<not> py_contains sep (vid @ rest)"
proof -
  have ns: "\<not> set sep \<subseteq> set vid" using vid sep(1) video_id_char_not by blast
  show ?thesis
  proof (cases rest)
    case Nil
    with ns show ?thesis using py_contains_subset[of sep vid] by auto
  next
    case (Cons q y)
    with rest sep have "q \<notin> set sep" by auto
    with ns Cons no show ?thesis by (simp add: py_contains_block)
  qed
qed

lemma id_from_patterns_short:
  assumes vid: "\<forall>c \<in> set vid. video_id_char c"
    and pre: "CHR ''y'' \<notin> set pre"
    and rest: "rest = [] \<or> hd rest = CHR ''?'' \<or> hd rest = CHR ''&''"
  shows "id_from_patterns (pre @ ''youtu.be/'' @ vid @ rest) = Some (Inr vid)"
proof -
  have c: "py_contains ''youtu.be/'' (pre @ ''youtu.be/'' @ vid @ rest)"
    by (rule py_contains_append)
  have "piece 1 ''youtu.be/'' (pre @ ''youtu.be/'' @ vid @ rest)
          = Inr (hd (py_split ''youtu.be/'' (vid @ rest)))"
    using pre piece_skip[of "''youtu.be/''" pre "''youtu.be/'' @ vid @ rest"]
      piece_hit[of "''youtu.be/''" "vid @ rest"] by simp
  with c two_cuts[OF vid _ _ _ rest, of "''youtu.be/''"] show ?thesis
    unfolding id_from_patterns_def by simp
qed


lemma no_earlier_marker:
  assumes vid: "\<forall>c \<in> set vid. video_id_char c"
    and sep: "hd sep = CHR ''y''" "sep \<noteq> []" "CHR ''/'' \<in> set sep" "CHR ''?'' \<notin> set sep"
      "CHR ''&'' \<notin> set sep"
    and pre: "CHR ''y'' \<notin> set pre"
    and marker: "py_contains sep (marker @ vid @ rest) = py_contains sep (vid @ rest)"
    and rest: "rest = [] \<or> hd rest = CHR ''?'' \<or> hd rest = CHR ''&''"
    and no: "\<not> py_contains sep rest"
  shows "\<not> py_contains sep (pre @ marker @ vid @ rest)"
  using py_contains_skip[of sep pre "marker @ vid @ rest"] sep pre marker
    no_marker_in_id[OF vid sep(3-5) rest no]
  by simp

lemma id_from_patterns_watch:
  assumes vid: "\<forall>c \<in> set vid. video_id_char c"
    and pre: "CHR ''y'' \<notin> set pre" "CHR ''v'' \<notin> set pre"
    and rest: "rest = [] \<or> hd rest = CHR ''&''"
    and no: "\<not> py_contains ''youtu.be/'' rest"
  shows "id_from_patterns (pre @ ''youtube.com/watch?v='' @ vid @ rest) = Some (Inr vid)"
proof -
  let ?url = "pre @ ''youtube.com/watch?v='' @ vid @ rest"
  from rest have rest2: "rest = [] \<or> hd rest = CHR ''?'' \<or> hd rest = CHR ''&''" by auto
  have c1: "\<not> py_contains ''youtu.be/'' ?url"
    by (rule no_earlier_marker[OF vid _ _ _ _ _ pre(1) _ rest2 no]) simp_all
  have c2: "py_contains ''youtube.com/watch'' ?url"
    using py_contains_append[of "''youtube.com/watch''" pre "''?v='' @ vid @ rest"] by simp
  have c3: "py_contains ''v='' ?url"
    using py_contains_append[of "''v=''" "pre @ ''youtube.com/watch?''" "vid @ rest"] by simp
  have "piece 1 ''v='' ?url = piece 1 ''v='' (''v='' @ vid @ rest)"
    using pre piece_skip[of "''v=''" "pre @ ''youtube.com/watch?''" "''v='' @ vid @ rest"] by simp
  then have "piece 1 ''v='' ?url = Inr (hd (py_split ''v='' (vid @ rest)))"
    using piece_hit[of "''v=''" "vid @ rest"] by simp
  with c1 c2 c3 one_cut[OF vid _ _ _ rest, of "''v=''"] show ?thesis
    unfolding id_from_patterns_def by simp
qed

lemma id_from_patterns_embed:
  assumes vid: "\<forall>c \<in> set vid. video_id_char c"
    and pre: "CHR ''y'' \<notin> set pre" "CHR ''e'' \<notin> set pre"
    and rest: "rest = [] \<or> hd rest = CHR ''?'' \<or> hd rest = CHR ''&''"
    and no: "\<not> py_contains ''youtu.be/'' rest" "\<not> py_contains ''youtube.com/watch'' rest"
  shows "id_from_patterns (pre @ ''youtube.com/embed/'' @ vid @ rest) = Some (Inr vid)"
proof -
  let ?url = "pre @ ''youtube.com/embed/'' @ vid @ rest"
  have c1: "\<not> py_contains ''youtu.be/'' ?url"
    by (rule no_earlier_marker[OF vid _ _ _ _ _ pre(1) _ rest no(1)]) simp_all
  have c2: "\<not> py_contains ''youtube.com/watch'' ?url"
    by (rule no_earlier_marker[OF vid _ _ _ _ _ pre(1) _ rest no(2)]) simp_all
  have c3: "py_contains ''youtube.com/embed/'' ?url"
    by (rule py_contains_append)
  have "piece 1 ''embed/'' ?url = piece 1 ''embed/'' (''youtube.com/embed/'' @ vid @ rest)"
    using pre piece_skip[of "''embed/''" pre "''youtube.com/embed/'' @ vid @ rest"] by simp
  also have "\<dots> = piece 1 ''embed/'' (''embed/'' @ vid @ rest)"
    by (simp add: piece_Cons_skip[unfolded One_nat_def])
  also have "\<dots> = Inr (hd (py_split ''embed/'' (vid @ rest)))"
    using piece_hit[of "''embed/''" "vid @ rest"] by simp
  finally have "piece 1 ''embed/'' ?url = Inr (hd (py_split ''embed/'' (vid @ rest)))" .
  with c1 c2 c3 two_cuts[OF vid _ _ _ rest, of "''embed/''"] show ?thesis
    unfolding id_from_patterns_def by simp
qed

lemma id_from_patterns_v:
  assumes vid: "\<forall>c \<in> set vid. video_id_char c"
    and pre: "CHR ''y'' \<notin> set pre" "CHR ''v'' \<notin> set pre"
    and rest: "rest = [] \<or> hd rest = CHR ''?'' \<or> hd rest = CHR ''&''"
    and no: "\<not> py_contains ''youtu.be/'' rest" "\<not> py_contains ''youtube.com/watch'' rest"
      "\<not> py_contains ''youtube.com/embed/'' rest"
  shows "id_from_patterns (pre @ ''youtube.com/v/'' @ vid @ rest) = Some (Inr vid)"
proof -
  let ?url = "pre @ ''youtube.com/v/'' @ vid @ rest"
  have c1: "\<not> py_contains ''youtu.be/'' ?url"
    by (rule no_earlier_marker[OF vid _ _ _ _ _ pre(1) _ rest no(1)]) simp_all
  have c2: "\<not> py_contains ''youtube.com/watch'' ?url"
    by (rule no_earlier_marker[OF vid _ _ _ _ _ pre(1) _ rest no(2)]) simp_all
  have c3: "\<not> py_contains ''youtube.com/embed/'' ?url"
    by (rule no_earlier_marker[OF vid _ _ _ _ _ pre(1) _ rest no(3)]) simp_all
  have c4: "py_contains ''youtube.com/v/'' ?url"
    by (rule py_contains_append)
  have "piece 1 ''v/'' ?url = piece 1 ''v/'' (''v/'' @ vid @ rest)"
    using pre piece_skip[of "''v/''" "pre @ ''youtube.com/''" "''v/'' @ vid @ rest"] by simp
  then have "piece 1 ''v/'' ?url = Inr (hd (py_split ''v/'' (vid @ rest)))"
    using piece_hit[of "''v/''" "vid @ rest"] by simp
  with c1 c2 c3 c4 two_cuts[OF vid _ _ _ rest, of "''v/''"] show ?thesis
    unfolding id_from_patterns_def by simp
qed


text \<open>
  The older implementation (lines 246 to 258): the first pattern that matches somewhere in
  the URL gives the id, which is the longest run without \<^verbatim>\<open>&\<close>, \<^verbatim>\<open>?\<close> and
  \<^verbatim>\<open>/\<close> after the marker.
\<close>

lemma group_after_not_hd: "marker \<noteq> [] \<Longrightarrow> hd marker \<noteq> c \<Longrightarrow> group_after marker (c # s) = None"
  by (auto simp: group_after_def dest: prefix_hd)

lemma re_search_skip:
  "\<forall>c \<in> set pre. \<forall>s. f (c # s) = None \<Longrightarrow> re_search f (pre @ m # s) = re_search f (m # s)"
  by (induction pre) simp_all

lemma takeWhile_id_char:
  assumes "\<forall>c \<in> set vid. video_id_char c"
    and "rest = [] \<or> hd rest = CHR ''?'' \<or> hd rest = CHR ''&''"
  shows "takeWhile id_char (vid @ rest) = vid"
proof -
  have a: "\<forall>c \<in> set vid. id_char c" using assms(1) video_id_char_not by (auto simp: id_char_def)
  have "takeWhile id_char rest = []" using assms(2) by (cases rest) (auto simp: id_char_def)
  with a show ?thesis by (simp add: takeWhile_append2)
qed

lemma group_after_hit:
  assumes "vid \<noteq> []" and "\<forall>c \<in> set vid. video_id_char c"
    and "rest = [] \<or> hd rest = CHR ''?'' \<or> hd rest = CHR ''&''"
  shows "group_after marker (marker @ vid @ rest) = Some vid"
  using assms(1) takeWhile_id_char[OF assms(2,3)] by (simp add: group_after_def)

lemma py_contains_Nil: "py_contains [] s"
  by (cases s) simp_all

lemma group_after_None: "\<not> py_contains marker s \<Longrightarrow> group_after marker s = None"
  by (cases s) (auto simp: group_after_def)

lemma re_search_None:
  "\<forall>m \<in> set markers. \<not> py_contains m s \<Longrightarrow>
   re_search (\<lambda>s. first_some (\<lambda>m. group_after m s) markers) s = None"
proof (induction s)
  case Nil
  have "first_some (\<lambda>m. group_after m s) ms = None" if "\<forall>m \<in> set ms. group_after m s = None" for ms s
    using that by (induction ms) simp_all
  with Nil group_after_None show ?case by simp
next
  case (Cons c s)
  have f: "first_some (\<lambda>m. group_after m s) ms = None" if "\<forall>m \<in> set ms. group_after m s = None" for ms s
    using that by (induction ms) simp_all
  from Cons.prems have "\<forall>m \<in> set markers. group_after m (c # s) = None"
    using group_after_None by blast
  then have "first_some (\<lambda>m. group_after m (c # s)) markers = None" by (rule f)
  moreover from Cons have "re_search (\<lambda>s. first_some (\<lambda>m. group_after m s) markers) s = None" by simp
  ultimately show ?case by simp
qed

lemma re_search_None1:
  "\<not> py_contains marker s \<Longrightarrow> re_search (group_after marker) s = None"
  using re_search_None[of "[marker]" s] 
  by (induction s) (simp_all add: group_after_None)

lemma py_contains_longer: "py_contains (a @ b) s \<Longrightarrow> py_contains a s"
  by (induction s) (auto simp: prefix_def)

lemma re_search_marker:
  assumes vid: "length vid = 11" "\<forall>c \<in> set vid. video_id_char c"
    and pre: "CHR ''y'' \<notin> set pre"
    and rest: "rest = [] \<or> hd rest = CHR ''?'' \<or> hd rest = CHR ''&''"
    and marker: "marker \<noteq> []" "hd marker = CHR ''y''"
  shows "re_search (group_after marker) (pre @ marker @ vid @ rest) = Some vid"
proof -
  from vid(1) have ne: "vid \<noteq> []" by auto
  obtain m ms where m: "marker = m # ms" using marker(1) by (cases marker) auto
  have "\<forall>c \<in> set pre. \<forall>s. group_after marker (c # s) = None"
    using pre marker group_after_not_hd by metis
  then have "re_search (group_after marker) (pre @ m # ms @ vid @ rest)
               = re_search (group_after marker) (m # ms @ vid @ rest)"
    by (rule re_search_skip)
  moreover have "group_after marker (m # ms @ vid @ rest) = Some vid"
    using group_after_hit[OF ne vid(2) rest, of marker] m by simp
  ultimately show ?thesis using m by simp
qed

lemma first_pattern_marker:
  assumes vid: "length vid = 11" "\<forall>c \<in> set vid. video_id_char c"
    and pre: "CHR ''y'' \<notin> set pre"
    and rest: "rest = [] \<or> hd rest = CHR ''?'' \<or> hd rest = CHR ''&''"
    and marker: "marker = ''youtube.com/watch?v='' \<or> marker = ''youtu.be/''"
  shows "re_search (\<lambda>s. first_some (\<lambda>m. group_after m s) [''youtube.com/watch?v='', ''youtu.be/''])
           (pre @ marker @ vid @ rest) = Some vid"
proof -
  let ?f = "\<lambda>s. first_some (\<lambda>m. group_after m s) [''youtube.com/watch?v='', ''youtu.be/'']"
  from vid(1) have ne: "vid \<noteq> []" by auto
  have "\<forall>c \<in> set pre. \<forall>s. ?f (c # s) = None"
    using pre by (auto simp: group_after_def)
  then have s: "re_search ?f (pre @ CHR ''y'' # r) = re_search ?f (CHR ''y'' # r)" for r
    by (rule re_search_skip)
  have w: "group_after ''youtube.com/watch?v='' (''youtube.com/watch?v='' @ vid @ rest) = Some vid"
    and b: "group_after ''youtu.be/'' (''youtu.be/'' @ vid @ rest) = Some vid"
    using group_after_hit[OF ne vid(2) rest] by blast+
  have n: "group_after ''youtube.com/watch?v='' (''youtu.be/'' @ vid @ rest) = None"
    by (simp add: group_after_def)
  from marker show ?thesis
  proof
    assume "marker = ''youtube.com/watch?v=''"
    with s[of "''outube.com/watch?v='' @ vid @ rest"] w show ?thesis by simp
  next
    assume "marker = ''youtu.be/''"
    with s[of "''outu.be/'' @ vid @ rest"] b n show ?thesis by simp
  qed
qed

lemma first_pattern_none:
  assumes "\<not> py_contains ''youtu.be/'' url" and "\<not> py_contains ''youtube.com/watch'' url"
  shows "re_search (\<lambda>s. first_some (\<lambda>m. group_after m s) [''youtube.com/watch?v='', ''youtu.be/''])
           url = None"
proof -
  have "\<not> py_contains ''youtube.com/watch?v='' url"
    using assms(2) py_contains_longer[of "''youtube.com/watch''" "''?v=''" url] by auto
  with assms(1) show ?thesis by (intro re_search_None) simp
qed

lemma extract_video_id_pytube_short:
  assumes "length vid = 11" "\<forall>c \<in> set vid. video_id_char c" "CHR ''y'' \<notin> set pre"
    "rest = [] \<or> hd rest = CHR ''?'' \<or> hd rest = CHR ''&''"
  shows "extract_video_id_pytube pw (pre @ ''youtu.be/'' @ vid @ rest) = Some vid"
  using first_pattern_marker[OF assms, of "''youtu.be/''"]
  by (simp add: extract_video_id_pytube_def)

lemma extract_video_id_pytube_watch:
  assumes "length vid = 11" "\<forall>c \<in> set vid. video_id_char c" "CHR ''y'' \<notin> set pre"
    "rest = [] \<or> hd rest = CHR ''?'' \<or> hd rest = CHR ''&''"
  shows "extract_video_id_pytube pw (pre @ ''youtube.com/watch?v='' @ vid @ rest) = Some vid"
  using first_pattern_marker[OF assms, of "''youtube.com/watch?v=''"]
  by (simp add: extract_video_id_pytube_def)

lemma extract_video_id_pytube_embed:
  assumes vid: "length vid = 11" "\<forall>c \<in> set vid. video_id_char c" and pre: "CHR ''y'' \<notin> set pre"
    and rest: "rest = [] \<or> hd rest = CHR ''?'' \<or> hd rest = CHR ''&''"
    and no: "\<not> py_contains ''youtu.be/'' rest" "\<not> py_contains ''youtube.com/watch'' rest"
  shows "extract_video_id_pytube pw (pre @ ''youtube.com/embed/'' @ vid @ rest) = Some vid"
proof -
  let ?url = "pre @ ''youtube.com/embed/'' @ vid @ rest"
  have c1: "\<not> py_contains ''youtu.be/'' ?url"
    by (rule no_earlier_marker[OF vid(2) _ _ _ _ _ pre _ rest no(1)]) simp_all
  have c2: "\<not> py_contains ''youtube.com/watch'' ?url"
    by (rule no_earlier_marker[OF vid(2) _ _ _ _ _ pre _ rest no(2)]) simp_all
  from first_pattern_none[OF c1 c2]
    re_search_marker[OF vid pre rest, of "''youtube.com/embed/''"]
  show ?thesis by (simp add: extract_video_id_pytube_def)
qed

lemma extract_video_id_pytube_v:
  assumes vid: "length vid = 11" "\<forall>c \<in> set vid. video_id_char c" and pre: "CHR ''y'' \<notin> set pre"
    and rest: "rest = [] \<or> hd rest = CHR ''?'' \<or> hd rest = CHR ''&''"
    and no: "\<not> py_contains ''youtu.be/'' rest" "\<not> py_contains ''youtube.com/watch'' rest"
      "\<not> py_contains ''youtube.com/embed/'' rest"
  shows "extract_video_id_pytube pw (pre @ ''youtube.com/v/'' @ vid @ rest) = Some vid"
proof -
  let ?url = "pre @ ''youtube.com/v/'' @ vid @ rest"
  have c1: "\<not> py_contains ''youtu.be/'' ?url"
    by (rule no_earlier_marker[OF vid(2) _ _ _ _ _ pre _ rest no(1)]) simp_all
  have c2: "\<not> py_contains ''youtube.com/watch'' ?url"
    by (rule no_earlier_marker[OF vid(2) _ _ _ _ _ pre _ rest no(2)]) simp_all
  have c3: "\<not> py_contains ''youtube.com/embed/'' ?url"
    by (rule no_earlier_marker[OF vid(2) _ _ _ _ _ pre _ rest no(3)]) simp_all
  from first_pattern_none[OF c1 c2] re_search_None1[OF c3]
    re_search_marker[OF vid pre rest, of "''youtube.com/v/''"]
  show ?thesis by (simp add: extract_video_id_pytube_def)
qed

text \<open>
  Claim C8, as amended. Take an id of 11 characters (letters, digits, hyphen, underscore)
  and a scheme-and-host prefix in which no marker can start (none of the letters y, v and
  e, as in \<^verbatim>\<open>https://www.\<close>). For a URL of the shape \<^verbatim>\<open>youtu.be/<id>\<close>,
  \<^verbatim>\<open>youtube.com/embed/<id>\<close> or \<^verbatim>\<open>youtube.com/v/<id>\<close>, followed by nothing or by a
  rest that starts with \<^verbatim>\<open>?\<close> or \<^verbatim>\<open>&\<close>, both implementations of
  \<^verbatim>\<open>extract_video_id\<close> return exactly the id, whatever the backend (the fallback is
  not asked), provided that the rest does not contain the marker of a shape that is tested
  earlier. For a URL of the shape \<^verbatim>\<open>youtube.com/watch?v=<id>\<close> the older
  implementation returns the id when nothing or a rest that starts with \<^verbatim>\<open>?\<close> or
  \<^verbatim>\<open>&\<close> follows, and the newer one when nothing or a rest that starts with
  \<^verbatim>\<open>&\<close> and does not contain \<^verbatim>\<open>youtu.be/\<close> follows.
\<close>

theorem extract_video_id_supported_shapes:
  assumes "length vid = 11" and "\<forall>c \<in> set vid. video_id_char c"
    and "CHR ''y'' \<notin> set pre" and "CHR ''v'' \<notin> set pre" and "CHR ''e'' \<notin> set pre"
    and "rest = [] \<or> hd rest = CHR ''?'' \<or> hd rest = CHR ''&''"
  shows "extract_video_id w (pre @ ''youtu.be/'' @ vid @ rest) fs = (PStr vid, fs) \<and>
         extract_video_id_pytube pw (pre @ ''youtu.be/'' @ vid @ rest) = Some vid \<and>
         extract_video_id_pytube pw (pre @ ''youtube.com/watch?v='' @ vid @ rest) = Some vid \<and>
         ((rest = [] \<or> hd rest = CHR ''&'') \<and> \<not> py_contains ''youtu.be/'' rest \<longrightarrow>
            extract_video_id w (pre @ ''youtube.com/watch?v='' @ vid @ rest) fs = (PStr vid, fs)) \<and>
         (\<not> py_contains ''youtu.be/'' rest \<and> \<not> py_contains ''youtube.com/watch'' rest \<longrightarrow>
            extract_video_id w (pre @ ''youtube.com/embed/'' @ vid @ rest) fs = (PStr vid, fs) \<and>
            extract_video_id_pytube pw (pre @ ''youtube.com/embed/'' @ vid @ rest) = Some vid) \<and>
         (\<not> py_contains ''youtu.be/'' rest \<and> \<not> py_contains ''youtube.com/watch'' rest \<and>
          \<not> py_contains ''youtube.com/embed/'' rest \<longrightarrow>
            extract_video_id w (pre @ ''youtube.com/v/'' @ vid @ rest) fs = (PStr vid, fs) \<and>
            extract_video_id_pytube pw (pre @ ''youtube.com/v/'' @ vid @ rest) = Some vid)"
proof -
  have new: "extract_video_id w (pre @ ''youtu.be/'' @ vid @ rest) fs = (PStr vid, fs) \<and>
         ((rest = [] \<or> hd rest = CHR ''&'') \<and> \<not> py_contains ''youtu.be/'' rest \<longrightarrow>
            extract_video_id w (pre @ ''youtube.com/watch?v='' @ vid @ rest) fs = (PStr vid, fs)) \<and>
         (\<not> py_contains ''youtu.be/'' rest \<and> \<not> py_contains ''youtube.com/watch'' rest \<longrightarrow>
            extract_video_id w (pre @ ''youtube.com/embed/'' @ vid @ rest) fs = (PStr vid, fs)) \<and>
         (\<not> py_contains ''youtu.be/'' rest \<and> \<not> py_contains ''youtube.com/watch'' rest \<and>
          \<not> py_contains ''youtube.com/embed/'' rest \<longrightarrow>
            extract_video_id w (pre @ ''youtube.com/v/'' @ vid @ rest) fs = (PStr vid, fs))"
    using id_from_patterns_short[OF assms(2,3,6)] id_from_patterns_watch[OF assms(2,3,4)]
      id_from_patterns_embed[OF assms(2,3,5,6)] id_from_patterns_v[OF assms(2,3,4,6)]
    by (simp add: extract_video_id_def)
  have old: "extract_video_id_pytube pw (pre @ ''youtu.be/'' @ vid @ rest) = Some vid \<and>
         extract_video_id_pytube pw (pre @ ''youtube.com/watch?v='' @ vid @ rest) = Some vid \<and>
         (\<not> py_contains ''youtu.be/'' rest \<and> \<not> py_contains ''youtube.com/watch'' rest \<longrightarrow>
            extract_video_id_pytube pw (pre @ ''youtube.com/embed/'' @ vid @ rest) = Some vid) \<and>
         (\<not> py_contains ''youtu.be/'' rest \<and> \<not> py_contains ''youtube.com/watch'' rest \<and>
          \<not> py_contains ''youtube.com/embed/'' rest \<longrightarrow>
            extract_video_id_pytube pw (pre @ ''youtube.com/v/'' @ vid @ rest) = Some vid)"
    using extract_video_id_pytube_short[OF assms(1,2,3,6)]
      extract_video_id_pytube_watch[OF assms(1,2,3,6)]
      extract_video_id_pytube_embed[OF assms(1,2,3,6)]
      extract_video_id_pytube_v[OF assms(1,2,3,6)]
    by blast
  from new old show ?thesis by blast
qed

theorem extract_video_id_supported_shapes_witness:
  "extract_video_id silent_backend ''https://youtu.be/dQw4w9WgXcQ&t=10'' Map.empty
     = (PStr ''dQw4w9WgXcQ'', Map.empty) \<and>
   extract_video_id silent_backend ''https://youtube.com/watch?v=dQw4w9WgXcQ&t=10'' Map.empty
     = (PStr ''dQw4w9WgXcQ'', Map.empty) \<and>
   extract_video_id silent_backend ''https://youtube.com/embed/dQw4w9WgXcQ&t=10'' Map.empty
     = (PStr ''dQw4w9WgXcQ'', Map.empty) \<and>
   extract_video_id silent_backend ''https://youtube.com/v/dQw4w9WgXcQ&t=10'' Map.empty
     = (PStr ''dQw4w9WgXcQ'', Map.empty) \<and>
   extract_video_id_pytube audio_backend ''https://youtu.be/dQw4w9WgXcQ&t=10'' = Some ''dQw4w9WgXcQ'' \<and>
   extract_video_id_pytube audio_backend ''https://youtube.com/watch?v=dQw4w9WgXcQ&t=10''
     = Some ''dQw4w9WgXcQ'' \<and>
   extract_video_id_pytube audio_backend ''https://youtube.com/embed/dQw4w9WgXcQ&t=10''
     = Some ''dQw4w9WgXcQ'' \<and>
   extract_video_id_pytube audio_backend ''https://youtube.com/v/dQw4w9WgXcQ&t=10''
     = Some ''dQw4w9WgXcQ'' \<and>
   extract_video_id_pytube audio_backend ''https://youtube.com/watch?v=dQw4w9WgXcQ?t=10''
     = Some ''dQw4w9WgXcQ''"
proof -
  have h1: "length ''dQw4w9WgXcQ'' = 11" by simp
  have h2: "\<forall>c \<in> set ''dQw4w9WgXcQ''. video_id_char c"
    by (simp add: video_id_char_def py_isdigit_def)
  have h3: "CHR ''y'' \<notin> set ''https://''" and h4: "CHR ''v'' \<notin> set ''https://''"
    and h5: "CHR ''e'' \<notin> set ''https://''" by simp_all
  have h6: "''&t=10'' = [] \<or> hd ''&t=10'' = CHR ''?'' \<or> hd ''&t=10'' = CHR ''&''" by simp
  have h7: "''?t=10'' = [] \<or> hd ''?t=10'' = CHR ''?'' \<or> hd ''?t=10'' = CHR ''&''" by simp
  have n: "\<not> py_contains ''youtu.be/'' ''&t=10''" "\<not> py_contains ''youtube.com/watch'' ''&t=10''"
    "\<not> py_contains ''youtube.com/embed/'' ''&t=10''" by simp_all
  from extract_video_id_supported_shapes[OF h1 h2 h3 h4 h5 h6, of silent_backend Map.empty audio_backend]
    extract_video_id_supported_shapes[OF h1 h2 h3 h4 h5 h7, of silent_backend Map.empty audio_backend] n
  show ?thesis by simp
qed

text \<open>
  The claim as it was stated fails in two ways for the newer implementation. The watch
  branch (line 757) reads the \<^verbatim>\<open>v\<close> parameter up to the next \<^verbatim>\<open>&\<close>, so a rest
  that starts with \<^verbatim>\<open>?\<close> stays in the id; and the shapes are told apart by substring
  tests in a fixed order, so a rest that mentions \<^verbatim>\<open>youtu.be/\<close> sends a watch URL to
  the first branch.
\<close>

theorem extract_video_id_supported_shapes_counterexample:
  "extract_video_id silent_backend ''https://www.youtube.com/watch?v=dQw4w9WgXcQ?t=10'' Map.empty
     = (PStr ''dQw4w9WgXcQ?t=10'', Map.empty) \<and>
   extract_video_id silent_backend
       ''https://www.youtube.com/watch?v=dQw4w9WgXcQ&next=https://youtu.be/9bZkp7q19f0'' Map.empty
     = (PStr ''9bZkp7q19f0'', Map.empty)"
proof -
  have "id_from_patterns ''https://www.youtube.com/watch?v=dQw4w9WgXcQ?t=10''
          = Some (Inr ''dQw4w9WgXcQ?t=10'')"
    and "id_from_patterns
           ''https://www.youtube.com/watch?v=dQw4w9WgXcQ&next=https://youtu.be/9bZkp7q19f0''
          = Some (Inr ''9bZkp7q19f0'')"
    by code_simp+
  then show ?thesis by (simp add: extract_video_id_def)
qed

text \<open>
  The older implementation cuts the id of a watch URL at a question mark, and it too
  takes the id after a later \<^verbatim>\<open>youtu.be/\<close> when the first pattern finds one
  there.
\<close>

lemma extract_video_id_pytube_examples:
  "extract_video_id_pytube w ''https://www.youtube.com/watch?v=dQw4w9WgXcQ?t=10''
     = Some ''dQw4w9WgXcQ'' \<and>
   extract_video_id_pytube w ''https://www.youtube.com/embed/dQw4w9WgXcQ?next=https://youtu.be/9bZkp7q19f0''
     = Some ''9bZkp7q19f0''"
  by code_simp

section \<open>The pytube-based service: what is returned\<close>







end
